theory Spec2Isabelle
  imports Main
begin

section \<open>JavaScript strings\<close>

text \<open>
  Strings are lists of 8-bit characters. The helpers below are the \<open>String.prototype\<close>
  methods and the regular expressions the sources use, written out on character lists.
\<close>

fun startsWith :: "string \<Rightarrow> string \<Rightarrow> bool" where
  "startsWith s [] = True"
| "startsWith [] (p # ps) = False"
| "startsWith (c # cs) (p # ps) = (c = p \<and> startsWith cs ps)"

definition endsWith :: "string \<Rightarrow> string \<Rightarrow> bool" where
  "endsWith s p = startsWith (rev s) (rev p)"

fun js_includes :: "string \<Rightarrow> string \<Rightarrow> bool" where
  "js_includes [] p = (p = [])"
| "js_includes (c # cs) p = (startsWith (c # cs) p \<or> js_includes cs p)"

definition lower_char :: "char \<Rightarrow> char" where
  "lower_char c =
     (let n = (of_char c :: nat)
      in if (65 \<le> n \<and> n \<le> 90) \<or> (192 \<le> n \<and> n \<le> 222 \<and> n \<noteq> 215) then char_of (n + 32) else c)"

definition toLowerCase :: "string \<Rightarrow> string" where
  "toLowerCase s = map lower_char s"

text \<open>White space as \<open>String.prototype.trim\<close> sees it among 8-bit characters.\<close>

definition is_js_space :: "char \<Rightarrow> bool" where
  "is_js_space c = ((of_char c :: nat) \<in> {9, 10, 11, 12, 13, 32, 160})"

definition trim :: "string \<Rightarrow> string" where
  "trim s = rev (dropWhile is_js_space (rev (dropWhile is_js_space s)))"

text \<open>\<open>s.split(';')[0]\<close>: the text before the first semicolon.\<close>

definition split_semicolon_first :: "string \<Rightarrow> string" where
  "split_semicolon_first s = takeWhile (\<lambda>c. c \<noteq> CHR '';'') s"

text \<open>\<open>s.replace(/^www\./, '')\<close>.\<close>

definition strip_www :: "string \<Rightarrow> string" where
  "strip_www s = (if startsWith s ''www.'' then drop 4 s else s)"

text \<open>\<open>s.replace(/^\//, '')\<close> and \<open>s.replace(/\/$/, '')\<close>.\<close>

definition strip_leading_slash :: "string \<Rightarrow> string" where
  "strip_leading_slash s = (if startsWith s ''/'' then drop 1 s else s)"

definition strip_trailing_slash :: "string \<Rightarrow> string" where
  "strip_trailing_slash s = (if endsWith s ''/'' then butlast s else s)"

text \<open>\<open>s.split(d)\<close> for a one-character separator.\<close>

fun split_on :: "char \<Rightarrow> string \<Rightarrow> string list" where
  "split_on d [] = [[]]"
| "split_on d (c # cs) =
     (if c = d then [] # split_on d cs
      else (case split_on d cs of [] \<Rightarrow> [[c]] | x # xs \<Rightarrow> (c # x) # xs))"

fun join_with :: "string \<Rightarrow> string list \<Rightarrow> string" where
  "join_with sep [] = []"
| "join_with sep [x] = x"
| "join_with sep (x # y # ys) = x @ sep @ join_with sep (y # ys)"


text \<open>The class \<open>\w\<close> and a test for \<open>/\bw\b/\<close>, for a word \<open>w\<close> made of \<open>\w\<close> characters.\<close>

definition is_word_char :: "char \<Rightarrow> bool" where
  "is_word_char c =
     (let n = (of_char c :: nat)
      in (48 \<le> n \<and> n \<le> 57) \<or> (65 \<le> n \<and> n \<le> 90) \<or> n = 95 \<or> (97 \<le> n \<and> n \<le> 122))"

definition boundary_after :: "string \<Rightarrow> bool" where
  "boundary_after rest = (case rest of [] \<Rightarrow> True | c # _ \<Rightarrow> \<not> is_word_char c)"

fun word_from :: "string \<Rightarrow> bool \<Rightarrow> string \<Rightarrow> bool" where
  "word_from w prev_is_word [] = False"
| "word_from w prev_is_word (c # cs) =
     ((\<not> prev_is_word \<and> startsWith (c # cs) w \<and> boundary_after (drop (length w) (c # cs)))
      \<or> word_from w (is_word_char c) cs)"

definition test_whole_word :: "string \<Rightarrow> string \<Rightarrow> bool" where
  "test_whole_word w s = word_from w False s"

text \<open>Decimal rendering of a number inside a template literal.\<close>

definition digit_char :: "nat \<Rightarrow> char" where
  "digit_char d = char_of (d + 48)"

fun decimal :: "nat \<Rightarrow> string" where
  "decimal n = (if 10 \<le> n then decimal (n div 10) @ [digit_char (n mod 10)] else [digit_char n])"

declare decimal.simps [simp del]

definition number_text :: "int \<Rightarrow> string" where
  "number_text i = (if 0 \<le> i then decimal (nat i) else CHR ''-'' # decimal (nat (- i)))"

text \<open>\<open>x || ''\<close> for a string that may be \<open>undefined\<close>.\<close>

definition or_empty :: "string option \<Rightarrow> string" where
  "or_empty v = (case v of None \<Rightarrow> [] | Some s \<Rightarrow> s)"

text \<open>A JavaScript \<open>Set\<close> of strings keeps insertion order and ignores a second \<open>add\<close>.\<close>

definition set_add :: "string list \<Rightarrow> string \<Rightarrow> string list" where
  "set_add xs x = (if x \<in> set xs then xs else xs @ [x])"

section \<open>The platform\<close>

text \<open>
  The sources call into Node.js and npm libraries: the WHATWG \<open>URL\<close> class, the \<open>path\<close>
  and \<open>crypto\<close> modules, \<open>fs-extra\<close>, \<open>axios\<close> and \<open>cheerio\<close>. None of them is part of
  the repository, so they are gathered in one record of operations, \<open>platform\<close>, that
  every function below takes as its first argument; the theorems hold for whatever
  these operations compute. Logging, the wall clock and the random choice of a
  user-agent header have no influence on any value modelled here and are left out.
\<close>

record url =
  hostname :: string
  pathname :: string
  search :: string
  hash :: string

text \<open>A parsed document: elements with their attributes in source order, text, comments.\<close>

datatype node =
  Element (tag: string) (attribs: "(string \<times> string) list") (children: "node list")
| Text string
| Comment string

text \<open>
  What axios hands over as \<open>response.data\<close>. The client is created without a
  \<open>responseType\<close>, so axios tries \<open>JSON.parse\<close> on every non-empty body and keeps the
  body text only when that fails. The values are told apart as far as the code can tell
  them apart: a string, \<open>null\<close>, a boolean, the number zero, any other number (by its
  text), an object or array (by its text). \<open>truthy\<close> is JavaScript's conversion to a
  boolean on these values.
\<close>

datatype js_data =
  StringData string
| NullData
| BooleanData bool
| ZeroData
| NonZeroNumberData string
| ObjectData string

fun truthy :: "js_data \<Rightarrow> bool" where
  "truthy (StringData s) = (s \<noteq> [])"
| "truthy NullData = False"
| "truthy (BooleanData b) = b"
| "truthy ZeroData = False"
| "truthy (NonZeroNumberData n) = True"
| "truthy (ObjectData j) = True"

text \<open>
  An HTTP response as axios hands it over (header names in lower case), or the error
  it throws; \<open>validateStatus: () => true\<close> makes every status a response.
\<close>

record response =
  resp_status :: int
  data :: js_data
  headers :: "string \<Rightarrow> string option"

datatype http_result = Threw string | Responded response

datatype fs_op = EnsureDir string | WriteFile string string

record platform =
  URL_new :: "string \<Rightarrow> url option"
    \<comment> \<open>\<open>new URL(s)\<close>; \<open>None\<close> when the constructor throws\<close>
  URL_href :: "string \<Rightarrow> string \<Rightarrow> string option"
    \<comment> \<open>\<open>new URL(rel, base).href\<close>\<close>
  md5_hex :: "string \<Rightarrow> string"
    \<comment> \<open>\<open>crypto.createHash('md5').update(x).digest('hex')\<close>\<close>
  path_normalize :: "string \<Rightarrow> string"
  path_resolve :: "string list \<Rightarrow> string"
  path_join :: "string list \<Rightarrow> string"
  path_dirname :: "string \<Rightarrow> string"
  path_basename :: "string \<Rightarrow> string"
  path_extname :: "string \<Rightarrow> string"
  fs_throws :: "fs_op list \<Rightarrow> fs_op \<Rightarrow> string option"
    \<comment> \<open>whether a file-system call throws, given the calls that succeeded before it\<close>
  http_get :: "nat \<Rightarrow> string \<Rightarrow> http_result"
    \<comment> \<open>what the \<open>n\<close>-th GET of the run (counted from 0) gives for a URL\<close>
  cheerio_select :: "js_data \<Rightarrow> string \<Rightarrow> node list"
    \<comment> \<open>\<open>cheerio.load(html)(selector)\<close>: the matched elements in document order\<close>
  cheerio_parse :: "string \<Rightarrow> node list"
    \<comment> \<open>the nodes a markup string stands for when it is inserted into a document\<close>

section \<open>config.js: CrawlerConfig\<close>

record CrawlerConfig =
  siteHost :: string
  siteIp :: string
  linkedInProfile :: string
  crawlDelay :: int
  maxDepth :: int
  maxPages :: int
  connectTimeout :: int
  readTimeout :: int
  maxRetries :: int
  userAgents :: "string list"

datatype config_error = SiteHostNotSet | SiteIpNotSet | CrawlDelayNegative | MaxRetriesNegative

definition validate :: "CrawlerConfig \<Rightarrow> config_error option" where
  "validate c =
     (if siteHost c = [] then Some SiteHostNotSet
      else if siteIp c = [] then Some SiteIpNotSet
      else if crawlDelay c < 0 then Some CrawlDelayNegative
      else if maxRetries c < 0 then Some MaxRetriesNegative
      else None)"

definition getSiteUrl :: "CrawlerConfig \<Rightarrow> string" where
  "getSiteUrl c = ''https://'' @ siteHost c"

text \<open>
  What reading a property of a \<open>CrawlerConfig\<close> instance gives. The constructor assigns
  the ten fields of the record and nothing else; the class declares the methods
  \<open>validate\<close>, \<open>getRandomUserAgent\<close>, \<open>getSiteUrl\<close> and \<open>toString\<close>. Any other name
  reads as \<open>undefined\<close>.
\<close>

datatype js_value =
  JSUndefined | JSString string | JSNumber int | JSArray "string list" | JSFunction

definition CrawlerConfig_get :: "CrawlerConfig \<Rightarrow> string \<Rightarrow> js_value" where
  "CrawlerConfig_get c name =
     (if name = ''siteHost'' then JSString (siteHost c)
      else if name = ''siteIp'' then JSString (siteIp c)
      else if name = ''linkedInProfile'' then JSString (linkedInProfile c)
      else if name = ''crawlDelay'' then JSNumber (crawlDelay c)
      else if name = ''maxDepth'' then JSNumber (maxDepth c)
      else if name = ''maxPages'' then JSNumber (maxPages c)
      else if name = ''connectTimeout'' then JSNumber (connectTimeout c)
      else if name = ''readTimeout'' then JSNumber (readTimeout c)
      else if name = ''maxRetries'' then JSNumber (maxRetries c)
      else if name = ''userAgents'' then JSArray (userAgents c)
      else if name \<in> {''validate'', ''getRandomUserAgent'', ''getSiteUrl'', ''toString'',
                       ''constructor''} then JSFunction
      else JSUndefined)"

section \<open>crawler.js: Crawler\<close>

text \<open>
  The instance fields of the constructor, and two logs of what the crawler did to the
  world: the URLs it sent a GET for and the delays it slept, both in order.
\<close>

datatype page_status = Status int | BinaryAsset

record page =
  html :: js_data
  status :: page_status
  contentType :: "string option"
  error :: "string option"

record crawled_page =
  p_url :: string
  p_html :: js_data
  p_status :: page_status
  p_depth :: int

record failure =
  f_url :: string
  f_status :: page_status
  f_error :: "string option"

record Crawler =
  visitedUrls :: "string list"
  queuedUrls :: "string list"
  crawledPages :: "crawled_page list"
  failedUrls :: "failure list"
  assetUrls :: "string list"
  urlDepthMap :: "string \<Rightarrow> int option"
  requests :: "string list"
  sleeps :: "int list"

definition new_Crawler :: Crawler where
  "new_Crawler =
     \<lparr>visitedUrls = [], queuedUrls = [], crawledPages = [], failedUrls = [], assetUrls = [],
      urlDepthMap = (\<lambda>_. None), requests = [], sleeps = []\<rparr>"

text \<open>
  \<open>isSameDomain\<close>: the whole body sits in a \<open>try\<close> whose \<open>catch\<close> returns \<open>false\<close>.
  \<open>new URL(url)\<close> throws on an unparsable string; \<open>this.config.siteHostname.replace\<close>
  throws a \<open>TypeError\<close> unless the property holds a string.
\<close>

definition isSameDomain :: "platform \<Rightarrow> CrawlerConfig \<Rightarrow> string \<Rightarrow> bool" where
  "isSameDomain P config u =
     (case URL_new P u of
        None \<Rightarrow> False
      | Some parsedUrl \<Rightarrow>
          (case CrawlerConfig_get config ''siteHostname'' of
             JSString h \<Rightarrow> strip_www (hostname parsedUrl) = strip_www h
           | _ \<Rightarrow> False))"

definition queueUrl :: "Crawler \<Rightarrow> string \<Rightarrow> int \<Rightarrow> Crawler" where
  "queueUrl c u depth =
     (if u \<notin> set (visitedUrls c) \<and> u \<notin> set (queuedUrls c)
      then c\<lparr>queuedUrls := set_add (queuedUrls c) u, urlDepthMap := (urlDepthMap c)(u \<mapsto> depth)\<rparr>
      else c)"

definition getDepthForUrl :: "Crawler \<Rightarrow> string \<Rightarrow> int" where
  "getDepthForUrl c u = (case urlDepthMap c u of None \<Rightarrow> 0 | Some d \<Rightarrow> d)"

text \<open>
  The body of \<open>fetchPage\<close>'s \<open>try\<close> once the response is there. \<open>media_type\<close> and
  \<open>content_disposition\<close> are the constants \<open>contentType\<close> and \<open>contentDisp\<close>.
\<close>

definition media_type :: "response \<Rightarrow> string" where
  "media_type r = toLowerCase (trim (split_semicolon_first (or_empty (headers r ''content-type''))))"

definition content_disposition :: "response \<Rightarrow> string" where
  "content_disposition r = toLowerCase (or_empty (headers r ''content-disposition''))"

definition classify_response :: "response \<Rightarrow> page" where
  "classify_response r =
     (if resp_status r = 200 \<and> truthy (data r) then
        (let isHtml = (media_type r = [] \<or> media_type r = ''text/html''
                         \<or> media_type r = ''application/xhtml+xml'');
             isAttachment = test_whole_word ''attachment'' (content_disposition r)
         in if \<not> isHtml \<or> isAttachment
            then \<lparr>html = StringData [], status = BinaryAsset, contentType = Some (media_type r), error = None\<rparr>
            else \<lparr>html = data r, status = Status 200, contentType = None, error = None\<rparr>)
      else \<lparr>html = StringData [], status = Status (resp_status r), contentType = None,
             error = Some (''HTTP '' @ number_text (resp_status r))\<rparr>)"

function fetchPage :: "platform \<Rightarrow> CrawlerConfig \<Rightarrow> string \<Rightarrow> int \<Rightarrow> Crawler \<Rightarrow> page \<times> Crawler" where
  "fetchPage P config u attempt c =
     (case http_get P (length (requests c)) u of
        Responded r \<Rightarrow> (classify_response r, c\<lparr>requests := requests c @ [u]\<rparr>)
      | Threw message \<Rightarrow>
          (if attempt < maxRetries config
           then fetchPage P config u (attempt + 1)
                  (c\<lparr>requests := requests c @ [u], sleeps := sleeps c @ [1000 * (attempt + 1)]\<rparr>)
           else (\<lparr>html = StringData [], status = Status 0, contentType = None, error = Some message\<rparr>,
                 c\<lparr>requests := requests c @ [u]\<rparr>)))"
  by pat_completeness auto
termination
  by (relation "measure (\<lambda>(P, config, u, attempt, c). nat (maxRetries config - attempt))") auto

declare fetchPage.simps [simp del]

text \<open>
  \<open>Crawler.BINARY_EXTENSIONS.test(s)\<close>: a dot, one of the listed extensions, then the end
  of the string or a question mark followed by anything but a line break; letter case
  is ignored.
\<close>

definition binary_extensions :: "string list" where
  "binary_extensions =
     [''zip'', ''gz'', ''tar'', ''7z'', ''rar'', ''bz2'', ''pdf'', ''doc'', ''docx'', ''xls'', ''xlsx'',
      ''ppt'', ''pptx'', ''odt'', ''ods'', ''odp'', ''csv'', ''mp3'', ''mp4'', ''wav'', ''ogg'', ''webm'',
      ''avi'', ''mov'', ''mkv'', ''flac'', ''aac'', ''woff'', ''woff2'', ''ttf'', ''eot'', ''otf'']"

definition query_tail :: "string \<Rightarrow> bool" where
  "query_tail t =
     (case t of [] \<Rightarrow> True
      | c # cs \<Rightarrow> c = CHR ''?'' \<and> list_all (\<lambda>x. x \<noteq> CHR 0x0A \<and> x \<noteq> CHR 0x0D) cs)"

fun ext_somewhere :: "string \<Rightarrow> string \<Rightarrow> bool" where
  "ext_somewhere [] e = False"
| "ext_somewhere (c # cs) e =
     ((startsWith (c # cs) e \<and> query_tail (drop (length e) (c # cs))) \<or> ext_somewhere cs e)"

definition BINARY_EXTENSIONS_test :: "string \<Rightarrow> bool" where
  "BINARY_EXTENSIONS_test s =
     list_ex (\<lambda>e. ext_somewhere (toLowerCase s) (CHR ''.'' # e)) binary_extensions"

text \<open>\<open>$(elem).attr(name)\<close>, and \<open>a || b\<close> on attribute values.\<close>

definition attr :: "node \<Rightarrow> string \<Rightarrow> string option" where
  "attr n name = (case n of Element t as cs \<Rightarrow> map_of as name | _ \<Rightarrow> None)"

definition js_or :: "string option \<Rightarrow> string option \<Rightarrow> string option" where
  "js_or a b = (case a of None \<Rightarrow> b | Some s \<Rightarrow> if s = [] then b else Some s)"

definition special_schemes :: "string list" where
  "special_schemes = [''data:'', ''javascript:'', ''mailto:'', ''tel:'', ''sms:'']"

definition resolveUrl :: "platform \<Rightarrow> string option \<Rightarrow> string \<Rightarrow> string" where
  "resolveUrl P relativeUrl baseUrl =
     (case relativeUrl of
        None \<Rightarrow> []
      | Some r \<Rightarrow>
          if r = [] then []
          else if startsWith r ''#'' then []
          else if list_ex (startsWith r) special_schemes then []
          else (case URL_href P r baseUrl of None \<Rightarrow> [] | Some h \<Rightarrow> h))"

definition extract_anchor ::
  "platform \<Rightarrow> CrawlerConfig \<Rightarrow> string \<Rightarrow> node \<Rightarrow> string list \<times> string list \<Rightarrow> string list \<times> string list"
where
  "extract_anchor P config pageUrl elem acc =
     (let absoluteUrl = resolveUrl P (attr elem ''href'') pageUrl
      in if \<not> isSameDomain P config absoluteUrl then acc
         else (case URL_new P absoluteUrl of
                 None \<Rightarrow> (set_add (fst acc) absoluteUrl, snd acc)
               | Some parsed \<Rightarrow>
                   if BINARY_EXTENSIONS_test (pathname parsed)
                   then (fst acc, set_add (snd acc) absoluteUrl)
                   else (set_add (fst acc) absoluteUrl, snd acc)))"

definition extract_asset ::
  "platform \<Rightarrow> CrawlerConfig \<Rightarrow> string \<Rightarrow> node \<Rightarrow> string list \<times> string list \<Rightarrow> string list \<times> string list"
where
  "extract_asset P config pageUrl elem acc =
     (let absoluteUrl = resolveUrl P (js_or (attr elem ''src'') (attr elem ''href'')) pageUrl
      in if isSameDomain P config absoluteUrl then (fst acc, set_add (snd acc) absoluteUrl)
         else acc)"

definition extract_form ::
  "platform \<Rightarrow> CrawlerConfig \<Rightarrow> string \<Rightarrow> node \<Rightarrow> string list \<times> string list \<Rightarrow> string list \<times> string list"
where
  "extract_form P config pageUrl elem acc =
     (let absoluteUrl = resolveUrl P (attr elem ''action'') pageUrl
      in if isSameDomain P config absoluteUrl then (set_add (fst acc) absoluteUrl, snd acc)
         else acc)"

text \<open>\<open>extractUrls\<close> returns the pair \<open>(urls, assets)\<close>.\<close>

definition extractUrls ::
  "platform \<Rightarrow> CrawlerConfig \<Rightarrow> js_data \<Rightarrow> string \<Rightarrow> string list \<times> string list"
where
  "extractUrls P config h pageUrl =
     fold (extract_form P config pageUrl) (cheerio_select P h ''form[action]'')
       (fold (extract_asset P config pageUrl)
          (cheerio_select P h ''img[src], script[src], link[href][rel~=stylesheet]'')
          (fold (extract_anchor P config pageUrl) (cheerio_select P h ''a[href]'') ([], [])))"

text \<open>
  The three branches of \<open>crawl\<close> on the outcome of a fetch. The link extractor is an
  argument, so that what is proved of the loop does not depend on which links a page
  yields; \<open>crawl\<close> below passes \<open>extractUrls\<close>.
\<close>

type_synonym extractor = "js_data \<Rightarrow> string \<Rightarrow> string list \<times> string list"

definition enqueue_new :: "int \<Rightarrow> string \<Rightarrow> Crawler \<Rightarrow> Crawler" where
  "enqueue_new depth newUrl c =
     (if newUrl \<notin> set (visitedUrls c) \<and> newUrl \<notin> set (queuedUrls c)
      then queueUrl c newUrl (depth + 1) else c)"

definition handle_page :: "extractor \<Rightarrow> string \<Rightarrow> int \<Rightarrow> page \<Rightarrow> Crawler \<Rightarrow> Crawler" where
  "handle_page ex u depth pg c =
     (if status pg = Status 200 then
        (let c1 = c\<lparr>crawledPages := crawledPages c @
                     [\<lparr>p_url = u, p_html = html pg, p_status = status pg, p_depth = depth\<rparr>]\<rparr>;
             newUrls = ex (html pg) u;
             c2 = fold (enqueue_new depth) (fst newUrls) c1
         in c2\<lparr>assetUrls := fold (\<lambda>asset xs. set_add xs asset) (snd newUrls) (assetUrls c2)\<rparr>)
      else if status pg = BinaryAsset then c\<lparr>assetUrls := set_add (assetUrls c) u\<rparr>
      else c\<lparr>failedUrls := failedUrls c @
                [\<lparr>f_url = u, f_status = status pg, f_error = error pg\<rparr>]\<rparr>)"

text \<open>
  One pass of the loop body from \<open>visitedUrls.add(url)\<close> to the rate-limit pause.
  \<open>fetchPage\<close> and \<open>extractUrls\<close> catch what their library calls throw, so nothing
  reaches the \<open>catch\<close> of \<open>crawl\<close>.
\<close>

definition visit :: "extractor \<Rightarrow> platform \<Rightarrow> CrawlerConfig \<Rightarrow> string \<Rightarrow> int \<Rightarrow> Crawler \<Rightarrow> Crawler" where
  "visit ex P config u depth c =
     (let fetched = fetchPage P config u 0 (c\<lparr>visitedUrls := set_add (visitedUrls c) u\<rparr>);
          c3 = handle_page ex u depth (fst fetched) (snd fetched)
      in if crawlDelay config > 0 then c3\<lparr>sleeps := sleeps c3 @ [crawlDelay config]\<rparr> else c3)"

text \<open>
  The \<open>while\<close> loop of \<open>crawl\<close>, returning \<open>processedCount\<close> and the crawler's fields at
  the exit. \<open>Array.from(queuedUrls)[0]\<close> is the oldest queued URL.
\<close>

function crawl_loop ::
  "extractor \<Rightarrow> platform \<Rightarrow> CrawlerConfig \<Rightarrow> int \<Rightarrow> Crawler \<Rightarrow> int \<times> Crawler"
where
  "crawl_loop ex P config processedCount c =
     (case queuedUrls c of
        [] \<Rightarrow> (processedCount, c)
      | u # rest \<Rightarrow>
          if \<not> processedCount < maxPages config then (processedCount, c)
          else if maxDepth config > 0
                  \<and> getDepthForUrl (c\<lparr>queuedUrls := removeAll u rest\<rparr>) u > maxDepth config
          then crawl_loop ex P config processedCount (c\<lparr>queuedUrls := removeAll u rest\<rparr>)
          else if u \<in> set (visitedUrls c)
          then crawl_loop ex P config processedCount (c\<lparr>queuedUrls := removeAll u rest\<rparr>)
          else crawl_loop ex P config (processedCount + 1)
                 (visit ex P config u (getDepthForUrl (c\<lparr>queuedUrls := removeAll u rest\<rparr>) u)
                    (c\<lparr>queuedUrls := removeAll u rest\<rparr>)))"
  by pat_completeness auto
termination
  by (relation "measures [\<lambda>(ex, P, config, processedCount, c). nat (maxPages config - processedCount),
                          \<lambda>(ex, P, config, processedCount, c). length (queuedUrls c)]")
     (auto simp: less_Suc_eq_le)

declare crawl_loop.simps [simp del]

definition crawl_with :: "extractor \<Rightarrow> platform \<Rightarrow> CrawlerConfig \<Rightarrow> int \<times> Crawler" where
  "crawl_with ex P config =
     crawl_loop ex P config 0 (queueUrl new_Crawler (getSiteUrl config @ ''/'') 0)"

definition crawl :: "platform \<Rightarrow> CrawlerConfig \<Rightarrow> int \<times> Crawler" where
  "crawl P config = crawl_with (extractUrls P config) P config"

section \<open>fileManager.js: FileManager\<close>

text \<open>
  The instance fields, and the log of the file-system calls that succeeded. A buffer is
  a string of bytes. The two save functions store records of different shapes in
  \<open>assetMap\<close>: \<open>{relPath, contentHash}\<close> and \<open>{assetUrl, filePath, contentHash}\<close>.
\<close>

datatype asset_record = AtPath string string | ByUrl string string string

record saved_page =
  sp_url :: string
  sp_filePath :: string
  sp_fullPath :: string

record FileManager =
  outputDir :: string
  snapshotDir :: "string option"
  assetMap :: "string \<Rightarrow> asset_record option"
  pageCount :: nat
  assetCount :: nat
  fs_log :: "fs_op list"

datatype fm_error = SnapshotNotInitialized | FsError string | InvalidURL

definition new_FileManager :: "string \<Rightarrow> FileManager" where
  "new_FileManager dir =
     \<lparr>outputDir = dir, snapshotDir = None, assetMap = (\<lambda>_. None), pageCount = 0,
      assetCount = 0, fs_log = []\<rparr>"

text \<open>A call of \<open>fs.ensureDirSync\<close> or \<open>fs.writeFileSync\<close>: it throws, or it is logged.\<close>

definition fs_call :: "platform \<Rightarrow> fs_op \<Rightarrow> FileManager \<Rightarrow> fm_error + FileManager" where
  "fs_call P op fm =
     (case fs_throws P (fs_log fm) op of
        Some msg \<Rightarrow> Inl (FsError msg)
      | None \<Rightarrow> Inr (fm\<lparr>fs_log := fs_log fm @ [op]\<rparr>))"

fun fs_calls :: "platform \<Rightarrow> fs_op list \<Rightarrow> FileManager \<Rightarrow> fm_error + FileManager" where
  "fs_calls P [] fm = Inr fm"
| "fs_calls P (op # ops) fm =
     (case fs_call P op fm of Inl e \<Rightarrow> Inl e | Inr fm' \<Rightarrow> fs_calls P ops fm')"

text \<open>\<open>getTimestamp()\<close> reads the clock; its result is an argument here.\<close>

definition initializeSnapshot :: "platform \<Rightarrow> string \<Rightarrow> FileManager \<Rightarrow> fm_error + (string \<times> FileManager)" where
  "initializeSnapshot P timestamp fm =
     (let dir = path_join P [outputDir fm, timestamp]
      in case fs_calls P
                [EnsureDir dir, EnsureDir (path_join P [dir, ''files'']),
                 EnsureDir (path_join P [dir, ''css'']), EnsureDir (path_join P [dir, ''js'']),
                 EnsureDir (path_join P [dir, ''images''])]
                (fm\<lparr>snapshotDir := Some dir\<rparr>) of
           Inl e \<Rightarrow> Inl e
         | Inr fm' \<Rightarrow> Inr (dir, fm'))"

definition getPageFilePath :: "platform \<Rightarrow> string \<Rightarrow> string" where
  "getPageFilePath P u =
     (case URL_new P u of
        None \<Rightarrow> ''pages/'' @ md5_hex P u @ ''.html''
      | Some urlObj \<Rightarrow>
          (let stripped = strip_trailing_slash (pathname urlObj);
               pathname1 = (if stripped = [] then ''/'' else stripped)
           in if pathname1 = ''/'' then ''index.html''
              else (let pathname2 = drop 1 pathname1
                    in if path_extname P pathname2 \<noteq> [] then pathname2
                       else pathname2 @ ''/index.html'')))"

definition savePage :: "platform \<Rightarrow> string \<Rightarrow> string \<Rightarrow> FileManager \<Rightarrow> fm_error + (saved_page \<times> FileManager)" where
  "savePage P u h fm =
     (case snapshotDir fm of
        None \<Rightarrow> Inl SnapshotNotInitialized
      | Some dir \<Rightarrow>
          (let filePath = getPageFilePath P u;
               fullPath = path_join P [dir, filePath]
           in case fs_calls P [EnsureDir (path_dirname P fullPath), WriteFile fullPath h] fm of
                Inl e \<Rightarrow> Inl e
              | Inr fm' \<Rightarrow>
                  Inr (\<lparr>sp_url = u, sp_filePath = filePath, sp_fullPath = fullPath\<rparr>,
                       fm'\<lparr>pageCount := pageCount fm' + 1\<rparr>)))"

text \<open>
  The traversal guard of \<open>saveAssetAtPath\<close>:
  \<open>fullPath.startsWith(path.resolve(this.snapshotDir) + path.sep)\<close>, with the POSIX
  separator (the tool runs in a Linux container). The function returns \<open>null\<close>, here
  \<open>None\<close>, for a path the guard refuses.
\<close>

definition stays_inside :: "platform \<Rightarrow> string \<Rightarrow> string \<Rightarrow> bool" where
  "stays_inside P dir fullPath = startsWith fullPath (path_resolve P [dir] @ ''/'')"

definition saveAssetAtPath ::
  "platform \<Rightarrow> string \<Rightarrow> string \<Rightarrow> FileManager \<Rightarrow> fm_error + (asset_record option \<times> FileManager)"
where
  "saveAssetAtPath P relPath fileBuffer fm =
     (case snapshotDir fm of
        None \<Rightarrow> Inl SnapshotNotInitialized
      | Some dir \<Rightarrow>
          (let normalized = path_normalize P (strip_leading_slash relPath);
               fullPath = path_resolve P [dir, normalized]
           in if \<not> stays_inside P dir fullPath then Inr (None, fm)
              else (let contentHash = md5_hex P fileBuffer
                    in case assetMap fm contentHash of
                         Some existing \<Rightarrow> Inr (Some existing, fm)
                       | None \<Rightarrow>
                           (case fs_calls P [EnsureDir (path_dirname P fullPath),
                                             WriteFile fullPath fileBuffer] fm of
                              Inl e \<Rightarrow> Inl e
                            | Inr fm' \<Rightarrow>
                                Inr (Some (AtPath normalized contentHash),
                                     fm'\<lparr>assetMap := (assetMap fm')(contentHash \<mapsto> AtPath normalized contentHash),
                                         assetCount := assetCount fm' + 1\<rparr>)))))"

definition getAssetDirectory :: "string \<Rightarrow> string \<Rightarrow> string" where
  "getAssetDirectory mimeType u =
     (if js_includes mimeType ''image'' then ''images''
      else if js_includes mimeType ''stylesheet'' \<or> endsWith u ''.css'' then ''css''
      else if js_includes mimeType ''javascript'' \<or> endsWith u ''.js'' then ''js''
      else ''files'')"

definition mimeMap :: "(string \<times> string) list" where
  "mimeMap =
     [(''image/jpeg'', ''.jpg''), (''image/png'', ''.png''), (''image/gif'', ''.gif''),
      (''image/svg+xml'', ''.svg''), (''image/webp'', ''.webp''), (''text/css'', ''.css''),
      (''text/javascript'', ''.js''), (''application/javascript'', ''.js''),
      (''application/json'', ''.json''), (''text/html'', ''.html''), (''text/plain'', ''.txt'')]"

text \<open>
  \<open>getExtensionForMimeType\<close>, for a \<open>mimeType\<close> that is not the name of a property
  every object inherits (such as \<open>constructor\<close>).
\<close>

definition getExtensionForMimeType :: "string \<Rightarrow> string" where
  "getExtensionForMimeType mimeType =
     (case map_of mimeMap mimeType of
        Some ext \<Rightarrow> ext
      | None \<Rightarrow>
          (case find (\<lambda>entry. js_includes mimeType (takeWhile (\<lambda>c. c \<noteq> CHR ''/'') (fst entry))) mimeMap of
             Some entry \<Rightarrow> snd entry
           | None \<Rightarrow> []))"

text \<open>\<open>filename.replace(/[^a-zA-Z0-9._\-]/g, '_')\<close>.\<close>

definition sanitize_char :: "char \<Rightarrow> char" where
  "sanitize_char c =
     (if (is_word_char c \<or> c = CHR ''.'' \<or> c = CHR ''-'') then c else CHR ''_'')"

definition getAssetFilename :: "platform \<Rightarrow> string \<Rightarrow> string \<Rightarrow> string" where
  "getAssetFilename P u mimeType =
     (case URL_new P u of
        None \<Rightarrow> ''asset-'' @ take 12 (md5_hex P u) @ getExtensionForMimeType mimeType
      | Some urlObj \<Rightarrow>
          (let filename = path_basename P (pathname urlObj);
               filename1 = (if filename = []
                            then ''asset-'' @ take 8 (md5_hex P u) @ getExtensionForMimeType mimeType
                            else filename)
           in map sanitize_char filename1))"

definition saveAsset ::
  "platform \<Rightarrow> string \<Rightarrow> string \<Rightarrow> string \<Rightarrow> FileManager \<Rightarrow> fm_error + (asset_record \<times> FileManager)"
where
  "saveAsset P assetUrl fileBuffer mimeType fm =
     (case snapshotDir fm of
        None \<Rightarrow> Inl SnapshotNotInitialized
      | Some dir \<Rightarrow>
          (let contentHash = md5_hex P fileBuffer
           in case assetMap fm contentHash of
                Some existing \<Rightarrow> Inr (existing, fm)
              | None \<Rightarrow>
                  (let filePath = path_join P [getAssetDirectory mimeType assetUrl,
                                               getAssetFilename P assetUrl mimeType];
                       fullPath = path_join P [dir, filePath]
                   in case fs_calls P [EnsureDir (path_dirname P fullPath),
                                       WriteFile fullPath fileBuffer] fm of
                        Inl e \<Rightarrow> Inl e
                      | Inr fm' \<Rightarrow>
                          Inr (ByUrl assetUrl filePath contentHash,
                               fm'\<lparr>assetMap := (assetMap fm')(contentHash \<mapsto> ByUrl assetUrl filePath contentHash),
                                   assetCount := assetCount fm' + 1\<rparr>))))"

text \<open>
  A call of either save function, its buffer, and a run of such calls that stops at the
  first one that throws.
\<close>

datatype save_call = SaveAtPath string string | SaveAsset string string string

fun buffer_of :: "save_call \<Rightarrow> string" where
  "buffer_of (SaveAtPath relPath buf) = buf"
| "buffer_of (SaveAsset u buf mimeType) = buf"

fun run_save ::
  "platform \<Rightarrow> save_call \<Rightarrow> FileManager \<Rightarrow> fm_error + (asset_record option \<times> FileManager)"
where
  "run_save P (SaveAtPath relPath buf) fm = saveAssetAtPath P relPath buf fm"
| "run_save P (SaveAsset u buf mimeType) fm =
     (case saveAsset P u buf mimeType fm of Inl e \<Rightarrow> Inl e | Inr (r, fm') \<Rightarrow> Inr (Some r, fm'))"

text \<open>Whether the traversal guard refuses a call; \<open>saveAsset\<close> has no such guard.\<close>

fun refused :: "platform \<Rightarrow> FileManager \<Rightarrow> save_call \<Rightarrow> bool" where
  "refused P fm (SaveAtPath relPath buf) =
     (case snapshotDir fm of
        None \<Rightarrow> False
      | Some dir \<Rightarrow>
          \<not> stays_inside P dir (path_resolve P [dir, path_normalize P (strip_leading_slash relPath)]))"
| "refused P fm (SaveAsset u buf mimeType) = False"

fun run_saves :: "platform \<Rightarrow> save_call list \<Rightarrow> FileManager \<Rightarrow> fm_error + FileManager" where
  "run_saves P [] fm = Inr fm"
| "run_saves P (call # calls) fm =
     (case run_save P call fm of Inl e \<Rightarrow> Inl e | Inr (r, fm') \<Rightarrow> run_saves P calls fm')"

text \<open>The files written so far, oldest first, with their contents.\<close>

fun written :: "fs_op list \<Rightarrow> (string \<times> string) list" where
  "written [] = []"
| "written (EnsureDir d # ops) = written ops"
| "written (WriteFile f b # ops) = (f, b) # written ops"

text \<open>What a save returned and the state it left, with a fallback where it threw.\<close>

definition returned :: "'e + ('a \<times> 's) \<Rightarrow> 'a option" where
  "returned x = (case x of Inl e \<Rightarrow> None | Inr (r, s) \<Rightarrow> Some r)"

definition state_after :: "'s \<Rightarrow> 'e + ('a \<times> 's) \<Rightarrow> 's" where
  "state_after s0 x = (case x of Inl e \<Rightarrow> s0 | Inr (r, s) \<Rightarrow> s)"

section \<open>htmlUtils.js: HtmlUtils\<close>

definition isAbsoluteUrl :: "string \<Rightarrow> bool" where
  "isAbsoluteUrl u = (startsWith u ''http://'' \<or> startsWith u ''https://'')"






text \<open>
  \<open>createJatosReplacement\<close> is a template literal with one interpolation: the text
  before \<open>${linkedinProfile}\<close>, the profile, the text after it.
\<close>

definition replacement_head :: string where
  \<open>replacement_head =
     ''<div class="jatos-replacement" style="background: #f0f0f0; padding: 20px; border-radius: 4px; margin: 20px 0; text-align: center;">''
     @ [CHR 0x0A] @ ''  <p style="margin: 0; font-size: 16px; color: #333;">''
     @ [CHR 0x0A] @ ''    <strong>Experiments have concluded.</strong><br>''
     @ [CHR 0x0A] @ ''    For more information, please contact me on''
     @ [CHR 0x0A] @ ''    <a href="''\<close>

definition replacement_tail :: string where
  \<open>replacement_tail =
     ''" target="_blank" rel="noopener noreferrer" style="color: #0077b5; text-decoration: none;">LinkedIn</a>.''
     @ [CHR 0x0A] @ ''  </p>''
     @ [CHR 0x0A] @ ''</div>''\<close>

definition createJatosReplacement :: "string \<Rightarrow> string" where
  "createJatosReplacement linkedinProfile = replacement_head @ linkedinProfile @ replacement_tail"

section \<open>postProcessor.js: PostProcessor\<close>

text \<open>
  \<open>process\<close> parses a page with cheerio and runs its passes on the parsed document, a
  list of nodes here. The two passes modelled are the ones that write URLs and
  replace elements; the others (\<open>sanitizeHtml\<close>, \<open>removeAdminElements\<close>, \<open>cleanupHtml\<close>)
  only delete elements and attributes.
\<close>

record PostProcessor =
  siteDomain :: string
  linkedinProfile :: string
  verbose :: bool









text \<open>
  \<open>$(selector).each(... replaceWith ...)\<close>: an element that is replaced takes its
  descendants out of the document with it; the others are visited in document order.
\<close>

fun node_text :: "node \<Rightarrow> string" where
  "node_text (Element t as cs) = concat (map node_text cs)"
| "node_text (Text s) = s"
| "node_text (Comment s) = []"

fun replace_where :: "(node \<Rightarrow> bool) \<Rightarrow> node list \<Rightarrow> node \<Rightarrow> node list" where
  "replace_where m r (Element t as cs) =
     (if m (Element t as cs) then r
      else [Element t as (concat (map (replace_where m r) cs))])"
| "replace_where m r (Text s) = [Text s]"
| "replace_where m r (Comment s) = [Comment s]"

definition replace_each :: "(node \<Rightarrow> bool) \<Rightarrow> node list \<Rightarrow> node list \<Rightarrow> node list" where
  "replace_each m r doc = concat (map (replace_where m r) doc)"

text \<open>
  The selector \<open>iframe[src*="jatos"], iframe[class*="jatos"]\<close> (attribute values are
  compared as written), and the tests of the \<open>form\<close> and \<open>a\<close> loops.
\<close>

definition attr_contains :: "node \<Rightarrow> string \<Rightarrow> string \<Rightarrow> bool" where
  "attr_contains n name token = (case attr n name of None \<Rightarrow> False | Some v \<Rightarrow> js_includes v token)"

definition is_tag :: "string \<Rightarrow> node \<Rightarrow> bool" where
  "is_tag name n = (case n of Element t as cs \<Rightarrow> t = name | _ \<Rightarrow> False)"

definition jatos_iframe :: "node \<Rightarrow> bool" where
  "jatos_iframe n =
     (is_tag ''iframe'' n \<and> (attr_contains n ''src'' ''jatos'' \<or> attr_contains n ''class'' ''jatos''))"

definition jatos_form :: "node \<Rightarrow> bool" where
  "jatos_form n =
     (is_tag ''form'' n \<and>
      list_ex (js_includes (toLowerCase (or_empty (attr n ''action'') @ or_empty (attr n ''class''))))
        [''jatos'', ''experiment'', ''signup''])"

definition jatos_link :: "node \<Rightarrow> bool" where
  "jatos_link n =
     (is_tag ''a'' n \<and>
      list_ex (js_includes (or_empty (attr n ''href'') @ toLowerCase (node_text n)))
        [''jatos'', ''experiment''])"

definition replaceJatosForms :: "platform \<Rightarrow> PostProcessor \<Rightarrow> node list \<Rightarrow> node list" where
  "replaceJatosForms P pp doc =
     (let block = cheerio_parse P (createJatosReplacement (linkedinProfile pp))
      in replace_each jatos_link block
           (replace_each jatos_form block
              (replace_each jatos_iframe block doc)))"

section \<open>modes/crawl.js: saving a downloaded asset\<close>



section \<open>A concrete platform for runs\<close>

text \<open>
  Stand-ins for the library operations, used only to run the functions above on
  concrete inputs: a parser for plain \<open>http(s)://host[:port]/path?query#fragment\<close>
  strings, the POSIX flavour of the \<open>path\<close> module with \<open>/\<close> as working directory, a
  file system on which no call throws, and a digest that tags its input.
\<close>

definition demo_URL :: "string \<Rightarrow> url option" where
  "demo_URL s =
     (if isAbsoluteUrl s then
        (let r = drop (if startsWith s ''https://'' then 8 else 7) s;
             authority = takeWhile (\<lambda>c. c \<notin> {CHR ''/'', CHR ''?'', CHR ''#''}) r;
             r1 = dropWhile (\<lambda>c. c \<notin> {CHR ''/'', CHR ''?'', CHR ''#''}) r;
             p = takeWhile (\<lambda>c. c \<notin> {CHR ''?'', CHR ''#''}) r1;
             r2 = dropWhile (\<lambda>c. c \<notin> {CHR ''?'', CHR ''#''}) r1
         in if authority = [] then None
            else Some \<lparr>hostname = toLowerCase (takeWhile (\<lambda>c. c \<noteq> CHR '':'') authority),
                       pathname = (if p = [] then ''/'' else p),
                       search = takeWhile (\<lambda>c. c \<noteq> CHR ''#'') r2,
                       hash = dropWhile (\<lambda>c. c \<noteq> CHR ''#'') r2\<rparr>)
      else None)"

definition demo_href :: "string \<Rightarrow> string \<Rightarrow> string option" where
  "demo_href rel base =
     (if isAbsoluteUrl rel then (if demo_URL rel = None then None else Some rel)
      else if startsWith rel ''/'' then
        (case demo_URL base of None \<Rightarrow> None | Some b \<Rightarrow> Some (''https://'' @ hostname b @ rel))
      else None)"

fun normalize_segments :: "bool \<Rightarrow> string list \<Rightarrow> string list \<Rightarrow> string list" where
  "normalize_segments up [] st = rev st"
| "normalize_segments up (s # ss) st =
     (if s = [] \<or> s = ''.'' then normalize_segments up ss st
      else if s = ''..'' then
        (case st of
           [] \<Rightarrow> normalize_segments up ss (if up then [''..''] else [])
         | t # ts \<Rightarrow>
             if t = ''..'' then normalize_segments up ss (''..'' # t # ts)
             else normalize_segments up ss ts)
      else normalize_segments up ss (s # st))"

definition posix_normalize :: "string \<Rightarrow> string" where
  "posix_normalize p =
     (if p = [] then ''.''
      else (let q = join_with ''/'' (normalize_segments (\<not> startsWith p ''/'') (split_on CHR ''/'' p) [])
            in if q = [] then (if startsWith p ''/'' then ''/'' else if endsWith p ''/'' then ''./'' else ''.'')
               else (if startsWith p ''/'' then ''/'' else []) @ q @ (if endsWith p ''/'' then ''/'' else [])))"

fun resolve_acc :: "string list \<Rightarrow> string \<Rightarrow> string" where
  "resolve_acc [] acc = ''/'' @ ''/'' @ acc"
| "resolve_acc (a # as) acc =
     (if a = [] then resolve_acc as acc
      else if startsWith a ''/'' then a @ ''/'' @ acc
      else resolve_acc as (a @ ''/'' @ acc))"

definition posix_resolve :: "string list \<Rightarrow> string" where
  "posix_resolve args =
     ''/'' @ join_with ''/'' (normalize_segments False (split_on CHR ''/'' (resolve_acc (rev args) [])) [])"

definition posix_join :: "string list \<Rightarrow> string" where
  "posix_join args =
     (let joined = join_with ''/'' (filter (\<lambda>a. a \<noteq> []) args)
      in if joined = [] then ''.'' else posix_normalize joined)"

definition posix_dirname :: "string \<Rightarrow> string" where
  "posix_dirname p =
     (let segs = split_on CHR ''/'' p
      in if length segs \<le> 1 then ''.''
         else (let d = join_with ''/'' (butlast segs) in if d = [] then ''/'' else d))"

definition posix_basename :: "string \<Rightarrow> string" where
  "posix_basename p = rev (takeWhile (\<lambda>c. c \<noteq> CHR ''/'') (dropWhile (\<lambda>c. c = CHR ''/'') (rev p)))"

definition posix_extname :: "string \<Rightarrow> string" where
  "posix_extname p =
     (let b = posix_basename p;
          e = rev (takeWhile (\<lambda>c. c \<noteq> CHR ''.'') (rev b))
      in if CHR ''.'' \<notin> set b \<or> b = ''..'' \<or> Suc (length e) = length b then []
         else CHR ''.'' # e)"

text \<open>
  The response transform of axios on a body text, for the bodies of the runs: the JSON
  literals \<open>null\<close>, \<open>true\<close>, \<open>false\<close> and \<open>0\<close> are parsed, any other text is kept.
\<close>

definition axios_data :: "string \<Rightarrow> js_data" where
  "axios_data body =
     (if body = ''null'' then NullData
      else if body = ''true'' then BooleanData True
      else if body = ''false'' then BooleanData False
      else if body = ''0'' then ZeroData
      else StringData body)"

definition plain_response :: "int \<Rightarrow> string \<Rightarrow> string option \<Rightarrow> string option \<Rightarrow> response" where
  "plain_response code body ctype disposition =
     \<lparr>resp_status = code, data = axios_data body,
      headers = (\<lambda>name. if name = ''content-type'' then ctype
                         else if name = ''content-disposition'' then disposition else None)\<rparr>"

definition demo_platform :: platform where
  "demo_platform =
     \<lparr>URL_new = demo_URL, URL_href = demo_href, md5_hex = (\<lambda>x. ''md5-'' @ x),
      path_normalize = posix_normalize, path_resolve = posix_resolve, path_join = posix_join,
      path_dirname = posix_dirname, path_basename = posix_basename, path_extname = posix_extname,
      fs_throws = (\<lambda>ops op. None),
      http_get = (\<lambda>n u. Responded (plain_response 200 ''<html></html>'' (Some ''text/html'') None)),
      cheerio_select = (\<lambda>h selector. []),
      cheerio_parse = (\<lambda>markup. [Element ''div'' [(''class'', ''jatos-replacement'')] [Text markup]])\<rparr>"

definition demo_config :: CrawlerConfig where
  "demo_config =
     \<lparr>siteHost = ''example.com'', siteIp = ''127.0.0.1'',
      linkedInProfile = ''https://linkedin.com'', crawlDelay = 500, maxDepth = 0,
      maxPages = 10000, connectTimeout = 10000, readTimeout = 30000, maxRetries = 3,
      userAgents = [''Mozilla/5.0'']\<rparr>"

definition demo_fm :: FileManager where
  "demo_fm = (new_FileManager ''/output'')\<lparr>snapshotDir := Some ''/output/2024-01-01_00-00-00''\<rparr>"

definition demo_pp :: PostProcessor where
  "demo_pp = \<lparr>siteDomain = ''example.com'', linkedinProfile = ''https://linkedin.com'', verbose = False\<rparr>"

text \<open>Servers for the runs: one per behaviour.\<close>

definition offline_platform :: platform where
  "offline_platform = demo_platform\<lparr>http_get := (\<lambda>n u. Threw ''ECONNRESET'')\<rparr>"

definition error500_platform :: platform where
  "error500_platform =
     demo_platform\<lparr>http_get := (\<lambda>n u. Responded (plain_response 500 ''Internal Server Error''
                                                   (Some ''text/html'') None))\<rparr>"

definition pdf_platform :: platform where
  "pdf_platform =
     demo_platform\<lparr>http_get := (\<lambda>n u. Responded (plain_response 200 ''%PDF-1.4''
                                                   (Some ''application/pdf'') None))\<rparr>"

definition attachment_platform :: platform where
  "attachment_platform =
     demo_platform\<lparr>http_get := (\<lambda>n u. Responded (plain_response 200 ''<html>export</html>''
                                                   (Some ''text/html'')
                                                   (Some ''attachment; filename=export.html'')))\<rparr>"

text \<open>Two servers whose non-empty body is a JSON literal that converts to \<open>false\<close>.\<close>

definition false_pdf_platform :: platform where
  "false_pdf_platform =
     demo_platform\<lparr>http_get := (\<lambda>n u. Responded (plain_response 200 ''false''
                                                   (Some ''application/pdf'') None))\<rparr>"

definition null_json_platform :: platform where
  "null_json_platform =
     demo_platform\<lparr>http_get := (\<lambda>n u. Responded (plain_response 200 ''null''
                                                   (Some ''application/json'') None))\<rparr>"

definition empty_body_platform :: platform where
  "empty_body_platform =
     demo_platform\<lparr>http_get := (\<lambda>n u. Responded (plain_response 200 [] (Some ''text/html'') None))\<rparr>"

text \<open>A home page on which cheerio finds one anchor, to \<open>/about\<close>.\<close>

definition linked_platform :: platform where
  "linked_platform =
     demo_platform\<lparr>cheerio_select :=
        (\<lambda>h selector. if selector = ''a[href]''
                        then [Element ''a'' [(''href'', ''/about'')] [Text ''About'']] else [])\<rparr>"

text \<open>A site of two pages that link to each other, and an extractor that finds the links.\<close>

definition cycle_platform :: platform where
  "cycle_platform =
     demo_platform\<lparr>http_get := (\<lambda>n u. Responded (plain_response 200 (''page at '' @ u)
                                                   (Some ''text/html'') None))\<rparr>"

definition cycle_links :: extractor where
  "cycle_links h pageUrl =
     (if pageUrl = ''https://example.com/'' then ([''https://example.com/b''], [])
      else ([''https://example.com/''], []))"

text \<open>
  Save calls for the runs: an image stored at its rewritten path, a stylesheet, the same
  image bytes again from another URL, and the same bytes at a path that leaves the
  snapshot. \<open>demo_fm1\<close> and \<open>demo_fm2\<close> are the states after the first and after the
  first two of them.
\<close>

definition first_save :: save_call where
  "first_save = SaveAtPath ''/files/a.png'' ''PNG''"

definition other_save :: save_call where
  "other_save = SaveAsset ''https://example.com/style.css'' ''body{}'' ''text/css''"

definition second_save :: save_call where
  "second_save = SaveAsset ''https://example.com/copy.png'' ''PNG'' ''image/png''"

definition unsafe_save :: save_call where
  "unsafe_save = SaveAtPath ''../../tmp/a.png'' ''PNG''"

definition demo_fm1 :: FileManager where
  "demo_fm1 = state_after demo_fm (run_save demo_platform first_save demo_fm)"

definition demo_fm2 :: FileManager where
  "demo_fm2 = (case run_saves demo_platform [other_save] demo_fm1 of Inl e \<Rightarrow> demo_fm1 | Inr fm \<Rightarrow> fm)"

text \<open>The replacement block of the runs.\<close>

definition demo_block :: "node list" where
  "demo_block = cheerio_parse demo_platform (createJatosReplacement (linkedinProfile demo_pp))"

section \<open>Auxiliary notions for the statements\<close>

text \<open>The pauses before the retries that follow attempt number \<open>attempt\<close>, \<open>k\<close> of them.\<close>

definition backoff :: "int \<Rightarrow> nat \<Rightarrow> int list" where
  "backoff attempt k = map (\<lambda>j. 1000 * (attempt + 1 + int j)) [0..<k]"

text \<open>
  The invariant of the crawl loop: no URL is twice in the visited set, \<open>processedCount\<close>
  counts its elements, and GETs went out for visited URLs only, within the budget.
\<close>

definition crawl_inv :: "CrawlerConfig \<Rightarrow> int \<Rightarrow> Crawler \<Rightarrow> bool" where
  "crawl_inv config n c \<longleftrightarrow>
     distinct (visitedUrls c) \<and> int (length (visitedUrls c)) = n \<and>
     (\<forall>v. int (count_list (requests c) v)
            \<le> (if v \<in> set (visitedUrls c) then 1 + maxRetries config else 0))"

section \<open>Same-domain test\<close>

lemma isSameDomain_never: "isSameDomain P config u = False"
  by (simp add: isSameDomain_def CrawlerConfig_get_def split: option.split)

text \<open>
  C1. The same-domain test is meant to hold exactly when the URL's hostname and the
  configured host agree after stripping a leading \<open>www.\<close>. The configuration object has
  no \<open>siteHostname\<close> property, so the test fails for a URL on the configured host itself:
  \<open>https://example.com/about\<close> with \<open>SITE_HOST=example.com\<close> is valid, parses to the
  hostname \<open>example.com\<close>, and is still reported as a foreign domain. A link to it on
  the home page is therefore dropped by \<open>extractUrls\<close>, and the crawl stops after the
  home page.
\<close>

theorem C1_isSameDomain_own_host_rejected:
  "validate demo_config = None \<and>
   map_option hostname (URL_new demo_platform ''https://example.com/about'') = Some (siteHost demo_config) \<and>
   isSameDomain demo_platform demo_config ''https://example.com/about'' = False \<and>
   resolveUrl linked_platform (Some ''/about'') ''https://example.com/'' = ''https://example.com/about'' \<and>
   extractUrls linked_platform demo_config (StringData ''<html></html>'') ''https://example.com/'' = ([], []) \<and>
   visitedUrls (snd (crawl linked_platform demo_config)) = [''https://example.com/''] \<and>
   queuedUrls (snd (crawl linked_platform demo_config)) = []"
  by code_simp

section \<open>Fetching a page\<close>

lemma fetchPage_responded:
  "http_get P (length (requests c)) u = Responded r \<Longrightarrow>
   fetchPage P config u attempt c = (classify_response r, c\<lparr>requests := requests c @ [u]\<rparr>)"
  by (subst fetchPage.simps) simp

lemma fetchPage_gave_up:
  "http_get P (length (requests c)) u = Threw m \<Longrightarrow> \<not> attempt < maxRetries config \<Longrightarrow>
   fetchPage P config u attempt c =
     (\<lparr>html = StringData [], status = Status 0, contentType = None, error = Some m\<rparr>,
      c\<lparr>requests := requests c @ [u]\<rparr>)"
  by (subst fetchPage.simps) simp

lemma fetchPage_retry:
  "http_get P (length (requests c)) u = Threw m \<Longrightarrow> attempt < maxRetries config \<Longrightarrow>
   fetchPage P config u attempt c =
     fetchPage P config u (attempt + 1)
       (c\<lparr>requests := requests c @ [u], sleeps := sleeps c @ [1000 * (attempt + 1)]\<rparr>)"
  by (subst fetchPage.simps) simp


lemma backoff_Suc: "backoff attempt (Suc k) = (1000 * (attempt + 1)) # backoff (attempt + 1) k"
  unfolding backoff_def
  by (simp add: upt_conv_Cons map_Suc_upt[symmetric] del: upt_Suc)

lemma fetchPage_throws:
  "(\<forall>i<k. \<exists>m. http_get P (length (requests c) + i) u = Threw m) \<Longrightarrow>
   attempt + int k \<le> maxRetries config \<Longrightarrow>
   fetchPage P config u attempt c =
     fetchPage P config u (attempt + int k)
       (c\<lparr>requests := requests c @ replicate k u, sleeps := sleeps c @ backoff attempt k\<rparr>)"
proof (induction k arbitrary: attempt c)
  case 0
  then show ?case by (simp add: backoff_def)
next
  case (Suc k)
  from Suc.prems(1) obtain m where m: "http_get P (length (requests c)) u = Threw m"
    by force
  let ?c = "c\<lparr>requests := requests c @ [u], sleeps := sleeps c @ [1000 * (attempt + 1)]\<rparr>"
  have later: "\<forall>i<k. \<exists>m. http_get P (length (requests ?c) + i) u = Threw m"
    using Suc.prems(1) by (auto dest: spec[where x="Suc _"])
  have "fetchPage P config u attempt c = fetchPage P config u (attempt + 1) ?c"
    using m Suc.prems(2) by (intro fetchPage_retry) auto
  also have "\<dots> = fetchPage P config u (attempt + 1 + int k)
       (?c\<lparr>requests := requests ?c @ replicate k u, sleeps := sleeps ?c @ backoff (attempt + 1) k\<rparr>)"
    using later Suc.prems(2) by (intro Suc.IH) auto
  finally show ?case
    by (simp add: backoff_Suc replicate_app_Cons_same ac_simps)
qed

lemma fetchPage_recovers:
  assumes "\<forall>i<k. \<exists>m. http_get P (length (requests c) + i) u = Threw m"
    and "int k \<le> maxRetries config"
    and "http_get P (length (requests c) + k) u = Responded r"
  shows "fetchPage P config u 0 c =
           (classify_response r,
            c\<lparr>requests := requests c @ replicate (Suc k) u, sleeps := sleeps c @ backoff 0 k\<rparr>)"
proof -
  let ?c = "c\<lparr>requests := requests c @ replicate k u, sleeps := sleeps c @ backoff 0 k\<rparr>"
  have "fetchPage P config u 0 c = fetchPage P config u (0 + int k) ?c"
    using assms(1,2) by (intro fetchPage_throws) auto
  also have "\<dots> = (classify_response r, ?c\<lparr>requests := requests ?c @ [u]\<rparr>)"
    using assms(3) by (intro fetchPage_responded) simp
  finally show ?thesis by (simp add: replicate_append_same)
qed

lemma fetchPage_exhausted:
  assumes "\<forall>i<k. \<exists>m. http_get P (length (requests c) + i) u = Threw m"
    and "int k = maxRetries config"
    and "http_get P (length (requests c) + k) u = Threw m"
  shows "fetchPage P config u 0 c =
           (\<lparr>html = StringData [], status = Status 0, contentType = None, error = Some m\<rparr>,
            c\<lparr>requests := requests c @ replicate (Suc k) u, sleeps := sleeps c @ backoff 0 k\<rparr>)"
proof -
  let ?c = "c\<lparr>requests := requests c @ replicate k u, sleeps := sleeps c @ backoff 0 k\<rparr>"
  have "fetchPage P config u 0 c = fetchPage P config u (0 + int k) ?c"
    using assms(1,2) by (intro fetchPage_throws) auto
  also have "\<dots> = (\<lparr>html = StringData [], status = Status 0, contentType = None, error = Some m\<rparr>,
                    ?c\<lparr>requests := requests ?c @ [u]\<rparr>)"
    using assms(2,3) by (intro fetchPage_gave_up) simp_all
  finally show ?thesis by (simp add: replicate_append_same)
qed

lemma classify_not_200:
  "resp_status r \<noteq> 200 \<Longrightarrow>
   classify_response r =
     \<lparr>html = StringData [], status = Status (resp_status r), contentType = None,
      error = Some (''HTTP '' @ number_text (resp_status r))\<rparr>"
  by (simp add: classify_response_def)

lemma visit_via_fetch:
  "fetchPage P config u 0 (c\<lparr>visitedUrls := set_add (visitedUrls c) u\<rparr>) = (pg, c1) \<Longrightarrow>
   visit ex P config u depth c =
     (if crawlDelay config > 0
      then (handle_page ex u depth pg c1)\<lparr>sleeps := sleeps (handle_page ex u depth pg c1) @ [crawlDelay config]\<rparr>
      else handle_page ex u depth pg c1)"
  by (simp add: visit_def Let_def)

text \<open>
  C2, as the code has it. Only a transport failure, where the GET throws, is retried:
  after \<open>k\<close> failed attempts within the budget \<open>maxRetries\<close> the crawler has sent
  \<open>k + 1\<close> GETs and has slept 1000, 2000, ..., 1000 k milliseconds between them. If the
  next GET answers, its response is classified at once, whatever its status: a
  response whose status is not 200 gives a failure with that status and the error
  \<open>HTTP <status>\<close> and is not retried. If all \<open>maxRetries + 1\<close> attempts throw, the
  outcome is a failure with status 0 and the message of the last error. In both cases
  \<open>crawl\<close> appends the failure to the failed list. \<open>fetchPage\<close> returns a value in every
  case: it is a total function and has no error result.
\<close>

theorem C2_retry_on_transport_failure_only:
  assumes throws: "\<forall>i<k. \<exists>m. http_get P (length (requests c) + i) u = Threw m"
    and budget: "int k \<le> maxRetries config"
  shows "(\<forall>r. http_get P (length (requests c) + k) u = Responded r \<longrightarrow>
            fetchPage P config u 0 c =
              (classify_response r,
               c\<lparr>requests := requests c @ replicate (Suc k) u, sleeps := sleeps c @ backoff 0 k\<rparr>) \<and>
            (resp_status r \<noteq> 200 \<longrightarrow>
               classify_response r =
                 \<lparr>html = StringData [], status = Status (resp_status r), contentType = None,
                  error = Some (''HTTP '' @ number_text (resp_status r))\<rparr> \<and>
               failedUrls (visit ex P config u depth c) =
                 failedUrls c @ [\<lparr>f_url = u, f_status = Status (resp_status r),
                                  f_error = Some (''HTTP '' @ number_text (resp_status r))\<rparr>])) \<and>
         (\<forall>m. http_get P (length (requests c) + k) u = Threw m \<and> int k = maxRetries config \<longrightarrow>
            fetchPage P config u 0 c =
              (\<lparr>html = StringData [], status = Status 0, contentType = None, error = Some m\<rparr>,
               c\<lparr>requests := requests c @ replicate (Suc k) u, sleeps := sleeps c @ backoff 0 k\<rparr>) \<and>
            failedUrls (visit ex P config u depth c) =
              failedUrls c @ [\<lparr>f_url = u, f_status = Status 0, f_error = Some m\<rparr>])"
proof (intro conjI allI impI)
  fix r assume r: "http_get P (length (requests c) + k) u = Responded r"
  show "fetchPage P config u 0 c =
          (classify_response r,
           c\<lparr>requests := requests c @ replicate (Suc k) u, sleeps := sleeps c @ backoff 0 k\<rparr>)"
    using throws budget r by (rule fetchPage_recovers)
  assume bad: "resp_status r \<noteq> 200"
  then show cl: "classify_response r =
      \<lparr>html = StringData [], status = Status (resp_status r), contentType = None,
       error = Some (''HTTP '' @ number_text (resp_status r))\<rparr>"
    by (rule classify_not_200)
  let ?c = "c\<lparr>visitedUrls := set_add (visitedUrls c) u\<rparr>"
  have "fetchPage P config u 0 ?c =
          (classify_response r,
           ?c\<lparr>requests := requests ?c @ replicate (Suc k) u, sleeps := sleeps ?c @ backoff 0 k\<rparr>)"
    using throws budget r by (intro fetchPage_recovers) simp_all
  from visit_via_fetch[OF this, of ex depth]
  show "failedUrls (visit ex P config u depth c) =
          failedUrls c @ [\<lparr>f_url = u, f_status = Status (resp_status r),
                           f_error = Some (''HTTP '' @ number_text (resp_status r))\<rparr>]"
    using bad by (simp add: cl handle_page_def)
next
  fix m assume m: "http_get P (length (requests c) + k) u = Threw m \<and> int k = maxRetries config"
  show "fetchPage P config u 0 c =
          (\<lparr>html = StringData [], status = Status 0, contentType = None, error = Some m\<rparr>,
           c\<lparr>requests := requests c @ replicate (Suc k) u, sleeps := sleeps c @ backoff 0 k\<rparr>)"
    using throws m by (intro fetchPage_exhausted) simp_all
  let ?c = "c\<lparr>visitedUrls := set_add (visitedUrls c) u\<rparr>"
  have "fetchPage P config u 0 ?c =
          (\<lparr>html = StringData [], status = Status 0, contentType = None, error = Some m\<rparr>,
           ?c\<lparr>requests := requests ?c @ replicate (Suc k) u, sleeps := sleeps ?c @ backoff 0 k\<rparr>)"
    using throws m by (intro fetchPage_exhausted) simp_all
  from visit_via_fetch[OF this, of ex depth]
  show "failedUrls (visit ex P config u depth c) =
          failedUrls c @ [\<lparr>f_url = u, f_status = Status 0, f_error = Some m\<rparr>]"
    by (simp add: handle_page_def)
qed

text \<open>
  Witness for C2: a host that refuses every connection, with \<open>maxRetries = 3\<close>. Four
  GETs, pauses of one, two and three seconds, then a recorded failure.
\<close>

theorem C2_retry_on_transport_failure_only_witness:
  "http_get offline_platform 0 ''https://example.com/'' = Threw ''ECONNRESET'' \<and>
   http_get offline_platform 1 ''https://example.com/'' = Threw ''ECONNRESET'' \<and>
   http_get offline_platform 2 ''https://example.com/'' = Threw ''ECONNRESET'' \<and>
   http_get offline_platform 3 ''https://example.com/'' = Threw ''ECONNRESET'' \<and>
   int 3 \<le> maxRetries demo_config \<and>
   fst (fetchPage offline_platform demo_config ''https://example.com/'' 0 new_Crawler) =
     \<lparr>html = StringData [], status = Status 0, contentType = None, error = Some ''ECONNRESET''\<rparr> \<and>
   requests (snd (fetchPage offline_platform demo_config ''https://example.com/'' 0 new_Crawler)) =
     [''https://example.com/'', ''https://example.com/'', ''https://example.com/'', ''https://example.com/''] \<and>
   sleeps (snd (fetchPage offline_platform demo_config ''https://example.com/'' 0 new_Crawler)) =
     [1000, 2000, 3000] \<and>
   failedUrls (visit cycle_links offline_platform demo_config ''https://example.com/'' 0 new_Crawler) =
     [\<lparr>f_url = ''https://example.com/'', f_status = Status 0, f_error = Some ''ECONNRESET''\<rparr>]"
proof -
  have h1: "\<forall>i<3. \<exists>m. http_get offline_platform (length (requests new_Crawler) + i) ''https://example.com/'' = Threw m"
    by (simp add: offline_platform_def demo_platform_def)
  have h2: "int 3 \<le> maxRetries demo_config"
    by (simp add: demo_config_def)
  have h3: "http_get offline_platform (length (requests new_Crawler) + 3) ''https://example.com/'' = Threw ''ECONNRESET''
            \<and> int 3 = maxRetries demo_config"
    by (simp add: offline_platform_def demo_platform_def demo_config_def)
  from C2_retry_on_transport_failure_only[OF h1 h2, of cycle_links 0] h3
  have "fetchPage offline_platform demo_config ''https://example.com/'' 0 new_Crawler =
          (\<lparr>html = StringData [], status = Status 0, contentType = None, error = Some ''ECONNRESET''\<rparr>,
           new_Crawler\<lparr>requests := requests new_Crawler @ replicate (Suc 3) ''https://example.com/'',
                       sleeps := sleeps new_Crawler @ backoff 0 3\<rparr>) \<and>
        failedUrls (visit cycle_links offline_platform demo_config ''https://example.com/'' 0 new_Crawler) =
          failedUrls new_Crawler @
            [\<lparr>f_url = ''https://example.com/'', f_status = Status 0, f_error = Some ''ECONNRESET''\<rparr>]"
    by blast
  moreover have "http_get offline_platform n ''https://example.com/'' = Threw ''ECONNRESET''" for n
    by (simp add: offline_platform_def demo_platform_def)
  ultimately show ?thesis
    using h2 by (simp add: new_Crawler_def backoff_def numeral_3_eq_3 upt_rec)
qed

text \<open>
  Counterexample to C2 as stated: a server that answers 500 every time. With a retry
  budget of 3 the crawler sends a single GET, does not pause, and reports the failure.
\<close>

theorem C2_status_500_not_retried:
  "maxRetries demo_config = 3 \<and>
   fst (fetchPage error500_platform demo_config ''https://example.com/'' 0 new_Crawler) =
     \<lparr>html = StringData [], status = Status 500, contentType = None, error = Some ''HTTP 500''\<rparr> \<and>
   requests (snd (fetchPage error500_platform demo_config ''https://example.com/'' 0 new_Crawler)) =
     [''https://example.com/''] \<and>
   sleeps (snd (fetchPage error500_platform demo_config ''https://example.com/'' 0 new_Crawler)) = []"
  by code_simp

section \<open>Classifying a response\<close>

lemma fold_enqueue_new_pages:
  "crawledPages (fold (enqueue_new depth) vs c) = crawledPages c \<and>
   failedUrls (fold (enqueue_new depth) vs c) = failedUrls c"
  by (induction vs arbitrary: c) (simp_all add: enqueue_new_def queueUrl_def)

lemma classify_200:
  "resp_status r = 200 \<Longrightarrow> truthy (data r) \<Longrightarrow>
   classify_response r =
     (if (media_type r = [] \<or> media_type r = ''text/html'' \<or> media_type r = ''application/xhtml+xml'')
         \<and> \<not> test_whole_word ''attachment'' (content_disposition r)
      then \<lparr>html = data r, status = Status 200, contentType = None, error = None\<rparr>
      else \<lparr>html = StringData [], status = BinaryAsset, contentType = Some (media_type r), error = None\<rparr>)"
  by (simp add: classify_response_def Let_def)

text \<open>
  The two outcomes of a 200 response whose data is truthy: a page, kept with its
  data, or a binary asset, whose URL joins the asset set while the crawled pages, the
  queue and the failed list stay as they are and the link extractor is not consulted.
\<close>

lemma truthy_200_page_or_asset:
  assumes resp: "http_get P (length (requests c)) u = Responded r"
    and ok: "resp_status r = 200" and body: "truthy (data r)"
  shows "(status (fst (fetchPage P config u 0 c)) = Status 200 \<longleftrightarrow>
            (media_type r = [] \<or> media_type r = ''text/html'' \<or> media_type r = ''application/xhtml+xml'')
            \<and> \<not> test_whole_word ''attachment'' (content_disposition r)) \<and>
         (status (fst (fetchPage P config u 0 c)) = Status 200 \<longrightarrow>
            html (fst (fetchPage P config u 0 c)) = data r \<and>
            crawledPages (visit ex P config u depth c) =
              crawledPages c @ [\<lparr>p_url = u, p_html = data r, p_status = Status 200, p_depth = depth\<rparr>]) \<and>
         (status (fst (fetchPage P config u 0 c)) \<noteq> Status 200 \<longrightarrow>
            status (fst (fetchPage P config u 0 c)) = BinaryAsset \<and>
            assetUrls (visit ex P config u depth c) = set_add (assetUrls c) u \<and>
            crawledPages (visit ex P config u depth c) = crawledPages c \<and>
            queuedUrls (visit ex P config u depth c) = queuedUrls c \<and>
            failedUrls (visit ex P config u depth c) = failedUrls c \<and>
            visit ex P config u depth c = visit (\<lambda>h pageUrl. ([], [])) P config u depth c)"
proof -
  let ?c = "c\<lparr>visitedUrls := set_add (visitedUrls c) u\<rparr>"
  have f: "fetchPage P config u 0 c = (classify_response r, c\<lparr>requests := requests c @ [u]\<rparr>)"
    using resp by (rule fetchPage_responded)
  have f': "fetchPage P config u 0 ?c = (classify_response r, ?c\<lparr>requests := requests ?c @ [u]\<rparr>)"
    using resp by (intro fetchPage_responded) simp
  note v = visit_via_fetch[OF f']
  show ?thesis
    unfolding f v classify_200[OF ok body]
    by (simp add: handle_page_def Let_def fold_enqueue_new_pages)
qed

text \<open>
  C3. A 200 response that is not HTML is meant to become a binary asset whenever its
  body is not empty, and it does for a PDF body: the URL joins the asset set and no
  page is kept. The test for a body is \<open>response.data\<close> taken as a boolean, though, and
  axios has parsed the body by then: a response with \<open>Content-Type: application/pdf\<close>
  and the five characters \<open>false\<close> as body, or with \<open>Content-Type: application/json\<close> and
  the body \<open>null\<close>, has a non-empty body and falsy data. \<open>fetchPage\<close> answers it with
  \<open>{html: '', status: 200, error: 'HTTP 200'}\<close>, and \<open>crawl\<close> keeps the URL as a crawled
  page with empty markup; it never reaches the asset set.
\<close>

theorem C3_falsy_json_body_not_an_asset:
  "status (fst (fetchPage pdf_platform demo_config ''https://example.com/'' 0 new_Crawler)) = BinaryAsset \<and>
   assetUrls (snd (crawl pdf_platform demo_config)) = [''https://example.com/''] \<and>
   crawledPages (snd (crawl pdf_platform demo_config)) = [] \<and>
   status (fst (fetchPage attachment_platform demo_config ''https://example.com/'' 0 new_Crawler)) = BinaryAsset \<and>
   media_type (plain_response 200 ''false'' (Some ''application/pdf'') None) = ''application/pdf'' \<and>
   data (plain_response 200 ''false'' (Some ''application/pdf'') None) = BooleanData False \<and>
   fst (fetchPage false_pdf_platform demo_config ''https://example.com/'' 0 new_Crawler) =
     \<lparr>html = StringData [], status = Status 200, contentType = None, error = Some ''HTTP 200''\<rparr> \<and>
   assetUrls (snd (crawl false_pdf_platform demo_config)) = [] \<and>
   crawledPages (snd (crawl false_pdf_platform demo_config)) =
     [\<lparr>p_url = ''https://example.com/'', p_html = StringData [], p_status = Status 200, p_depth = 0\<rparr>] \<and>
   media_type (plain_response 200 ''null'' (Some ''application/json'') None) = ''application/json'' \<and>
   data (plain_response 200 ''null'' (Some ''application/json'') None) = NullData \<and>
   fst (fetchPage null_json_platform demo_config ''https://example.com/'' 0 new_Crawler) =
     \<lparr>html = StringData [], status = Status 200, contentType = None, error = Some ''HTTP 200''\<rparr> \<and>
   assetUrls (snd (crawl null_json_platform demo_config)) = [] \<and>
   crawledPages (snd (crawl null_json_platform demo_config)) =
     [\<lparr>p_url = ''https://example.com/'', p_html = StringData [], p_status = Status 200, p_depth = 0\<rparr>]"
  by code_simp

text \<open>
  C10. A 200 response with an empty body makes \<open>fetchPage\<close> return the failure-shaped
  object \<open>{html: '', status: 200, error: 'HTTP 200'}\<close>. Its status is still 200, so
  \<open>crawl\<close> takes the first branch: the URL ends up among the crawled pages, with empty
  markup, and not in the failed list.
\<close>

theorem C10_empty_200_kept_as_page:
  "fst (fetchPage empty_body_platform demo_config ''https://example.com/'' 0 new_Crawler) =
     \<lparr>html = StringData [], status = Status 200, contentType = None, error = Some ''HTTP 200''\<rparr> \<and>
   crawledPages (snd (crawl empty_body_platform demo_config)) =
     [\<lparr>p_url = ''https://example.com/'', p_html = StringData [], p_status = Status 200, p_depth = 0\<rparr>] \<and>
   failedUrls (snd (crawl empty_body_platform demo_config)) = [] \<and>
   assetUrls (snd (crawl empty_body_platform demo_config)) = []"
  by code_simp

section \<open>The crawl loop\<close>

lemma fetchPage_requests:
  "\<exists>k. 1 \<le> k \<and> int k \<le> 1 + max 0 (maxRetries config - attempt) \<and>
       snd (fetchPage P config u attempt c) =
         c\<lparr>requests := requests c @ replicate k u,
           sleeps := sleeps (snd (fetchPage P config u attempt c))\<rparr>"
proof (induction P config u attempt c rule: fetchPage.induct)
  case (1 P config u attempt c)
  show ?case
  proof (cases "http_get P (length (requests c)) u")
    case (Responded r)
    then have "snd (fetchPage P config u attempt c) = c\<lparr>requests := requests c @ replicate 1 u\<rparr>"
      by (simp add: fetchPage_responded)
    then show ?thesis
      by (intro exI[of _ 1]) simp
  next
    case (Threw m)
    show ?thesis
    proof (cases "attempt < maxRetries config")
      case False
      with Threw have "snd (fetchPage P config u attempt c) = c\<lparr>requests := requests c @ replicate 1 u\<rparr>"
        by (simp add: fetchPage_gave_up)
      then show ?thesis
        by (intro exI[of _ 1]) simp
    next
      case True
      let ?c = "c\<lparr>requests := requests c @ [u], sleeps := sleeps c @ [1000 * (attempt + 1)]\<rparr>"
      from "1.IH"[OF Threw True] obtain k where k: "1 \<le> k"
        "int k \<le> 1 + max 0 (maxRetries config - (attempt + 1))"
        "snd (fetchPage P config u (attempt + 1) ?c) =
           ?c\<lparr>requests := requests ?c @ replicate k u,
              sleeps := sleeps (snd (fetchPage P config u (attempt + 1) ?c))\<rparr>"
        by blast
      have eq: "fetchPage P config u attempt c = fetchPage P config u (attempt + 1) ?c"
        using Threw True by (rule fetchPage_retry)
      have "snd (fetchPage P config u attempt c) =
              c\<lparr>requests := requests c @ replicate (Suc k) u,
                sleeps := sleeps (snd (fetchPage P config u attempt c))\<rparr>"
        unfolding eq by (subst k(3)) (simp add: replicate_app_Cons_same)
      moreover have "int (Suc k) \<le> 1 + max 0 (maxRetries config - attempt)"
        using k(2) True by simp
      ultimately show ?thesis
        by (intro exI[of _ "Suc k"]) simp
    qed
  qed
qed

lemma enqueue_new_keeps:
  "visitedUrls (enqueue_new depth v c) = visitedUrls c"
  "requests (enqueue_new depth v c) = requests c"
  by (simp_all add: enqueue_new_def queueUrl_def)

lemma fold_enqueue_new_keeps:
  "visitedUrls (fold (enqueue_new depth) vs c) = visitedUrls c \<and>
   requests (fold (enqueue_new depth) vs c) = requests c"
  by (induction vs arbitrary: c) (simp_all add: enqueue_new_keeps)

lemma handle_page_keeps:
  "visitedUrls (handle_page ex u depth pg c) = visitedUrls c"
  "requests (handle_page ex u depth pg c) = requests c"
  by (simp_all add: handle_page_def Let_def fold_enqueue_new_keeps)

lemma visit_visited: "visitedUrls (visit ex P config u depth c) = set_add (visitedUrls c) u"
proof -
  let ?c = "c\<lparr>visitedUrls := set_add (visitedUrls c) u\<rparr>"
  obtain k where k: "snd (fetchPage P config u 0 ?c) =
      ?c\<lparr>requests := requests ?c @ replicate k u, sleeps := sleeps (snd (fetchPage P config u 0 ?c))\<rparr>"
    using fetchPage_requests[of config 0 P u ?c] by blast
  have "visitedUrls (snd (fetchPage P config u 0 ?c)) = set_add (visitedUrls c) u"
    by (subst k) simp
  then show ?thesis
    by (simp add: visit_def Let_def handle_page_keeps)
qed

lemma visit_requests:
  "\<exists>k. 1 \<le> k \<and> int k \<le> 1 + max 0 (maxRetries config) \<and>
       requests (visit ex P config u depth c) = requests c @ replicate k u"
proof -
  let ?c = "c\<lparr>visitedUrls := set_add (visitedUrls c) u\<rparr>"
  obtain k where k: "1 \<le> k" "int k \<le> 1 + max 0 (maxRetries config - 0)"
    "snd (fetchPage P config u 0 ?c) =
      ?c\<lparr>requests := requests ?c @ replicate k u, sleeps := sleeps (snd (fetchPage P config u 0 ?c))\<rparr>"
    using fetchPage_requests[of config 0 P u ?c] by blast
  have "requests (snd (fetchPage P config u 0 ?c)) = requests c @ replicate k u"
    by (subst k(3)) simp
  then have "requests (visit ex P config u depth c) = requests c @ replicate k u"
    by (simp add: visit_def Let_def handle_page_keeps)
  with k(1,2) show ?thesis by auto
qed

lemma count_list_replicate_same: "count_list (replicate k u) v = (if v = u then k else 0)"
  by (induction k) auto

lemma visit_inv:
  assumes inv: "crawl_inv config n c" and new: "u \<notin> set (visitedUrls c)"
    and retries: "0 \<le> maxRetries config"
  shows "crawl_inv config (n + 1) (visit ex P config u depth c)"
proof -
  obtain k where k: "int k \<le> 1 + max 0 (maxRetries config)"
    "requests (visit ex P config u depth c) = requests c @ replicate k u"
    using visit_requests[of config ex P u depth c] by blast
  have vis: "visitedUrls (visit ex P config u depth c) = visitedUrls c @ [u]"
    using new by (simp add: visit_visited set_add_def)
  have "int (count_list (requests c) u) \<le> (if u \<in> set (visitedUrls c) then 1 + maxRetries config else 0)"
    using inv by (simp add: crawl_inv_def)
  then have unseen: "count_list (requests c) u = 0"
    using new by simp
  have "int (count_list (requests c @ replicate k u) v)
          \<le> (if v \<in> set (visitedUrls c @ [u]) then 1 + maxRetries config else 0)" for v
  proof (cases "v = u")
    case True
    then show ?thesis using unseen k(1) retries by (simp add: count_list_replicate_same)
  next
    case False
    then show ?thesis using inv unfolding crawl_inv_def by (simp add: count_list_replicate_same)
  qed
  then show ?thesis
    using inv new unfolding crawl_inv_def vis k(2) by simp
qed

lemma crawl_loop_inv:
  "crawl_inv config n c \<Longrightarrow> 0 \<le> maxRetries config \<Longrightarrow>
   crawl_inv config (fst (crawl_loop ex P config n c)) (snd (crawl_loop ex P config n c)) \<and>
   (fst (crawl_loop ex P config n c) < maxPages config \<longrightarrow>
      queuedUrls (snd (crawl_loop ex P config n c)) = [])"
proof (induction ex P config n c rule: crawl_loop.induct)
  case (1 ex P config n c)
  show ?case
  proof (cases "queuedUrls c")
    case Nil
    then show ?thesis using "1.prems" by (subst (1 2 3 4) crawl_loop.simps) simp
  next
    case (Cons u rest)
    let ?c = "c\<lparr>queuedUrls := removeAll u rest\<rparr>"
    have inv': "crawl_inv config n ?c"
      using "1.prems"(1) by (simp add: crawl_inv_def)
    consider (full) "\<not> n < maxPages config"
      | (deep) "n < maxPages config" "maxDepth config > 0 \<and> getDepthForUrl ?c u > maxDepth config"
      | (seen) "n < maxPages config" "\<not> (maxDepth config > 0 \<and> getDepthForUrl ?c u > maxDepth config)"
          "u \<in> set (visitedUrls c)"
      | (fresh) "n < maxPages config" "\<not> (maxDepth config > 0 \<and> getDepthForUrl ?c u > maxDepth config)"
          "u \<notin> set (visitedUrls c)"
      by blast
    then show ?thesis
    proof cases
      case full
      then show ?thesis using Cons "1.prems" by (subst (1 2 3 4) crawl_loop.simps) simp
    next
      case deep
      have eq: "crawl_loop ex P config n c = crawl_loop ex P config n ?c"
        using Cons deep by (subst crawl_loop.simps) simp
      show ?thesis unfolding eq
        using "1.IH"(1)[OF Cons _ _ inv' "1.prems"(2)] deep by simp
    next
      case seen
      have eq: "crawl_loop ex P config n c = crawl_loop ex P config n ?c"
        using Cons seen by (subst crawl_loop.simps) auto
      show ?thesis unfolding eq
        using "1.IH"(2)[OF Cons _ _ _ inv' "1.prems"(2)] seen by simp
    next
      case fresh
      let ?v = "visit ex P config u (getDepthForUrl ?c u) ?c"
      have eq: "crawl_loop ex P config n c = crawl_loop ex P config (n + 1) ?v"
        using Cons fresh by (subst crawl_loop.simps) auto
      have "crawl_inv config (n + 1) ?v"
        using inv' fresh(3) "1.prems"(2) by (intro visit_inv) simp_all
      then show ?thesis unfolding eq
        using "1.IH"(3)[OF Cons _ _ _ _ "1.prems"(2)] fresh by simp
    qed
  qed
qed

text \<open>
  C7. In every run of the crawl loop, for every link extractor and every network, with
  a retry budget that passed validation: the visited set never receives a URL twice
  (\<open>processedCount\<close>, which counts the calls of \<open>visitedUrls.add\<close>, equals the size of
  the set), every URL is sent at most \<open>1 + maxRetries\<close> GETs, and none is sent for a URL
  that was not visited. The loop always terminates (\<open>crawl_loop\<close> is a total function),
  and unless the page cap stopped it, it leaves an empty queue.
\<close>

theorem C7_visit_once:
  assumes "0 \<le> maxRetries config"
  shows "distinct (visitedUrls (snd (crawl_with ex P config))) \<and>
         int (length (visitedUrls (snd (crawl_with ex P config)))) = fst (crawl_with ex P config) \<and>
         (\<forall>u. int (count_list (requests (snd (crawl_with ex P config))) u) \<le> 1 + maxRetries config) \<and>
         (\<forall>u. u \<notin> set (visitedUrls (snd (crawl_with ex P config))) \<longrightarrow>
                count_list (requests (snd (crawl_with ex P config))) u = 0) \<and>
         (fst (crawl_with ex P config) < maxPages config \<longrightarrow>
            queuedUrls (snd (crawl_with ex P config)) = [])"
proof -
  let ?start = "queueUrl new_Crawler (getSiteUrl config @ ''/'') 0"
  have "crawl_inv config 0 ?start"
    by (simp add: crawl_inv_def queueUrl_def new_Crawler_def)
  from crawl_loop_inv[OF this assms, of ex P]
  have inv: "crawl_inv config (fst (crawl_with ex P config)) (snd (crawl_with ex P config))"
    and finished: "fst (crawl_with ex P config) < maxPages config \<longrightarrow>
            queuedUrls (snd (crawl_with ex P config)) = []"
    by (simp_all add: crawl_with_def)
  have bound: "int (count_list (requests (snd (crawl_with ex P config))) u)
                 \<le> (if u \<in> set (visitedUrls (snd (crawl_with ex P config)))
                     then 1 + maxRetries config else 0)" for u
    using inv by (simp add: crawl_inv_def)
  have "int (count_list (requests (snd (crawl_with ex P config))) u) \<le> 1 + maxRetries config" for u
    using bound[of u] assms by (simp split: if_splits)
  moreover have "count_list (requests (snd (crawl_with ex P config))) u = 0"
    if "u \<notin> set (visitedUrls (snd (crawl_with ex P config)))" for u
    using bound[of u] that by simp
  ultimately show ?thesis
    using inv finished unfolding crawl_inv_def by blast
qed

text \<open>
  Witness for C7: two pages that link to each other. Each is visited and fetched once,
  and the run ends with an empty queue.
\<close>

lemma cycle_run:
  "visitedUrls (snd (crawl_with cycle_links cycle_platform demo_config)) =
     [''https://example.com/'', ''https://example.com/b''] \<and>
   requests (snd (crawl_with cycle_links cycle_platform demo_config)) =
     [''https://example.com/'', ''https://example.com/b''] \<and>
   queuedUrls (snd (crawl_with cycle_links cycle_platform demo_config)) = [] \<and>
   fst (crawl_with cycle_links cycle_platform demo_config) = 2"
  by code_simp

theorem C7_visit_once_witness:
  "0 \<le> maxRetries demo_config \<and>
   distinct (visitedUrls (snd (crawl_with cycle_links cycle_platform demo_config))) \<and>
   visitedUrls (snd (crawl_with cycle_links cycle_platform demo_config)) =
     [''https://example.com/'', ''https://example.com/b''] \<and>
   requests (snd (crawl_with cycle_links cycle_platform demo_config)) =
     [''https://example.com/'', ''https://example.com/b''] \<and>
   queuedUrls (snd (crawl_with cycle_links cycle_platform demo_config)) = []"
  using C7_visit_once[of demo_config cycle_links cycle_platform] cycle_run
  by (simp add: demo_config_def)

section \<open>The asset store\<close>

lemma fs_calls_keeps:
  "fs_calls P ops fm = Inr fm' \<Longrightarrow>
   snapshotDir fm' = snapshotDir fm \<and> assetMap fm' = assetMap fm \<and>
   assetCount fm' = assetCount fm \<and> pageCount fm' = pageCount fm \<and>
   fs_log fm' = fs_log fm @ ops"
proof (induction ops arbitrary: fm)
  case Nil
  then show ?case by simp
next
  case (Cons op ops)
  then show ?case
    by (auto simp: fs_call_def split: option.splits sum.splits)
qed

lemma written_append: "written (xs @ ys) = written xs @ written ys"
  by (induction xs rule: written.induct) simp_all

text \<open>
  C6. In an initialised snapshot, a relative path whose resolution against the snapshot
  root does not start with the root followed by a separator makes \<open>saveAssetAtPath\<close>
  return \<open>null\<close> and leave the file manager as it was: nothing is written, the asset
  map and the asset counter are unchanged, and no error is raised.
\<close>

theorem C6_unsafe_path_skipped:
  assumes "snapshotDir fm = Some dir"
    and "fullPath = path_resolve P [dir, path_normalize P (strip_leading_slash relPath)]"
  shows "(\<not> stays_inside P dir fullPath \<longrightarrow>
            saveAssetAtPath P relPath fileBuffer fm = Inr (None, fm) \<and>
            returned (saveAssetAtPath P relPath fileBuffer fm) = Some None \<and>
            written (fs_log (state_after fm (saveAssetAtPath P relPath fileBuffer fm))) = written (fs_log fm) \<and>
            assetMap (state_after fm (saveAssetAtPath P relPath fileBuffer fm)) = assetMap fm \<and>
            assetCount (state_after fm (saveAssetAtPath P relPath fileBuffer fm)) = assetCount fm) \<and>
         (stays_inside P dir fullPath \<longrightarrow>
            returned (saveAssetAtPath P relPath fileBuffer fm) \<noteq> Some None)"
proof (intro conjI impI)
  assume "\<not> stays_inside P dir fullPath"
  then show skipped: "saveAssetAtPath P relPath fileBuffer fm = Inr (None, fm)"
    using assms by (simp add: saveAssetAtPath_def Let_def)
  show "returned (saveAssetAtPath P relPath fileBuffer fm) = Some None"
    and "written (fs_log (state_after fm (saveAssetAtPath P relPath fileBuffer fm))) = written (fs_log fm)"
    and "assetMap (state_after fm (saveAssetAtPath P relPath fileBuffer fm)) = assetMap fm"
    and "assetCount (state_after fm (saveAssetAtPath P relPath fileBuffer fm)) = assetCount fm"
    by (simp_all add: skipped returned_def state_after_def)
next
  assume "stays_inside P dir fullPath"
  then show "returned (saveAssetAtPath P relPath fileBuffer fm) \<noteq> Some None"
    using assms
    by (auto simp: saveAssetAtPath_def Let_def returned_def simp del: fs_calls.simps
        split: option.splits sum.splits)
qed

text \<open>Witness for C6: a path that climbs out of the snapshot directory.\<close>

theorem C6_unsafe_path_skipped_witness:
  "snapshotDir demo_fm = Some ''/output/2024-01-01_00-00-00'' \<and>
   path_resolve demo_platform [''/output/2024-01-01_00-00-00'',
      path_normalize demo_platform (strip_leading_slash ''../../etc/passwd'')] = ''/etc/passwd'' \<and>
   \<not> stays_inside demo_platform ''/output/2024-01-01_00-00-00'' ''/etc/passwd'' \<and>
   saveAssetAtPath demo_platform ''../../etc/passwd'' ''root:x:0:0'' demo_fm = Inr (None, demo_fm) \<and>
   assetCount demo_fm = 0 \<and> fs_log demo_fm = []"
proof -
  have h1: "snapshotDir demo_fm = Some ''/output/2024-01-01_00-00-00''"
    by (simp add: demo_fm_def new_FileManager_def)
  have h2: "path_resolve demo_platform [''/output/2024-01-01_00-00-00'',
      path_normalize demo_platform (strip_leading_slash ''../../etc/passwd'')] = ''/etc/passwd''"
    by code_simp
  have h3: "\<not> stays_inside demo_platform ''/output/2024-01-01_00-00-00'' ''/etc/passwd''"
    by code_simp
  from C6_unsafe_path_skipped[OF h1 h2[symmetric], of "''root:x:0:0''"] h3
  have "saveAssetAtPath demo_platform ''../../etc/passwd'' ''root:x:0:0'' demo_fm = Inr (None, demo_fm)"
    by blast
  then show ?thesis
    using h1 h2 h3 by (simp add: demo_fm_def new_FileManager_def)
qed

lemma saveAssetAtPath_keeps:
  assumes "saveAssetAtPath P relPath buf fm = Inr (x, fm')"
  shows "snapshotDir fm' = snapshotDir fm \<and>
         (assetMap fm h = Some r \<longrightarrow> assetMap fm' h = Some r)"
  using assms
  by (auto simp: saveAssetAtPath_def Let_def simp del: fs_calls.simps
      split: option.splits if_splits sum.splits dest!: fs_calls_keeps)

lemma saveAsset_keeps:
  assumes "saveAsset P u buf mimeType fm = Inr (x, fm')"
  shows "snapshotDir fm' = snapshotDir fm \<and>
         (assetMap fm h = Some r \<longrightarrow> assetMap fm' h = Some r)"
  using assms
  by (auto simp: saveAsset_def Let_def simp del: fs_calls.simps
      split: option.splits if_splits sum.splits dest!: fs_calls_keeps)

lemma run_save_keeps:
  assumes "run_save P call fm = Inr (x, fm')"
  shows "snapshotDir fm' = snapshotDir fm \<and>
         (assetMap fm h = Some r \<longrightarrow> assetMap fm' h = Some r)"
proof (cases call)
  case (SaveAtPath relPath buf)
  with assms show ?thesis by (simp add: saveAssetAtPath_keeps)
next
  case (SaveAsset u buf mimeType)
  with assms show ?thesis
    by (auto split: sum.splits dest: saveAsset_keeps)
qed

lemma run_saves_keeps:
  "run_saves P calls fm = Inr fm' \<Longrightarrow>
   snapshotDir fm' = snapshotDir fm \<and>
   (assetMap fm h = Some r \<longrightarrow> assetMap fm' h = Some r)"
proof (induction calls arbitrary: fm)
  case Nil
  then show ?case by simp
next
  case (Cons call calls)
  then obtain x fm1 where step: "run_save P call fm = Inr (x, fm1)"
    and rest: "run_saves P calls fm1 = Inr fm'"
    by (auto split: sum.splits)
  from run_save_keeps[OF step, of h r] Cons.IH[OF rest] show ?case by simp
qed

lemma run_save_records:
  assumes "run_save P call fm = Inr (Some r, fm')"
  shows "snapshotDir fm \<noteq> None \<and> assetMap fm' (md5_hex P (buffer_of call)) = Some r"
proof (cases call)
  case (SaveAtPath relPath buf)
  with assms show ?thesis
    by (auto simp: saveAssetAtPath_def Let_def simp del: fs_calls.simps
        split: option.splits if_splits sum.splits dest!: fs_calls_keeps)
next
  case (SaveAsset u buf mimeType)
  with assms show ?thesis
    by (auto simp: saveAsset_def Let_def simp del: fs_calls.simps
        split: option.splits if_splits sum.splits dest!: fs_calls_keeps)
qed

lemma run_save_hit:
  assumes "snapshotDir fm \<noteq> None" and "assetMap fm (md5_hex P (buffer_of call)) = Some r"
    and "\<not> refused P fm call"
  shows "run_save P call fm = Inr (Some r, fm)"
proof (cases call)
  case (SaveAtPath relPath buf)
  with assms show ?thesis
    by (auto simp: saveAssetAtPath_def Let_def)
next
  case (SaveAsset u buf mimeType)
  with assms show ?thesis
    by (auto simp: saveAsset_def Let_def)
qed

lemma run_save_fresh_writes:
  assumes "run_save P call fm = Inr (Some r, fm')"
    and "assetMap fm (md5_hex P (buffer_of call)) = None"
  shows "\<exists>file. written (fs_log fm') = written (fs_log fm) @ [(file, buffer_of call)]"
proof (cases call)
  case (SaveAtPath relPath buf)
  with assms show ?thesis
    by (auto simp: saveAssetAtPath_def Let_def written_append simp del: fs_calls.simps
        split: option.splits if_splits sum.splits dest!: fs_calls_keeps)
next
  case (SaveAsset u buf mimeType)
  with assms show ?thesis
    by (auto simp: saveAsset_def Let_def written_append simp del: fs_calls.simps
        split: option.splits if_splits sum.splits dest!: fs_calls_keeps)
qed

text \<open>
  C5, as the code has it. Within one snapshot, once a save call (through either
  function) has returned a record for a buffer, any later call with the same bytes
  that the traversal guard does not refuse writes nothing, leaves the file manager
  unchanged and returns that same record, whatever URLs or paths the two calls name
  and whatever was saved in between. If the bytes were new to the asset map, the first
  call wrote exactly one file, holding those bytes.
\<close>

theorem C5_same_bytes_stored_once:
  assumes first: "run_save P call1 fm0 = Inr (Some r, fm1)"
    and between: "run_saves P calls fm1 = Inr fm2"
    and same: "buffer_of call2 = buffer_of call1"
    and accepted: "\<not> refused P fm2 call2"
  shows "run_save P call2 fm2 = Inr (Some r, fm2) \<and>
         (assetMap fm0 (md5_hex P (buffer_of call1)) = None \<longrightarrow>
            (\<exists>file. written (fs_log fm1) = written (fs_log fm0) @ [(file, buffer_of call1)]))"
proof -
  from run_save_records[OF first]
  have init: "snapshotDir fm0 \<noteq> None" and rec: "assetMap fm1 (md5_hex P (buffer_of call1)) = Some r"
    by simp_all
  from run_save_keeps[OF first] init have "snapshotDir fm1 \<noteq> None" by simp
  with run_saves_keeps[OF between, of "md5_hex P (buffer_of call1)" r] rec
  have "snapshotDir fm2 \<noteq> None" and "assetMap fm2 (md5_hex P (buffer_of call2)) = Some r"
    by (simp_all add: same)
  then have "run_save P call2 fm2 = Inr (Some r, fm2)"
    using accepted by (rule run_save_hit)
  moreover have "\<exists>file. written (fs_log fm1) = written (fs_log fm0) @ [(file, buffer_of call1)]"
    if "assetMap fm0 (md5_hex P (buffer_of call1)) = None"
    using first that by (rule run_save_fresh_writes)
  ultimately show ?thesis by blast
qed

text \<open>
  Witness for C5: an image saved at its rewritten path, a stylesheet, then the same
  image bytes from another URL. Two files are on disk at the end.
\<close>

lemma returned_Inr: "returned x = Some a \<Longrightarrow> x = Inr (a, state_after s0 x)"
  by (auto simp: returned_def state_after_def split: sum.splits)

lemma demo_first: "returned (run_save demo_platform first_save demo_fm) = Some (Some (AtPath ''files/a.png'' ''md5-PNG''))"
  by code_simp

lemma demo_first_run: "run_save demo_platform first_save demo_fm = Inr (Some (AtPath ''files/a.png'' ''md5-PNG''), demo_fm1)"
  unfolding demo_fm1_def by (rule returned_Inr[OF demo_first])

lemma demo_between: "run_saves demo_platform [other_save] demo_fm1 = Inr demo_fm2"
proof -
  have "case run_saves demo_platform [other_save] demo_fm1 of Inl e \<Rightarrow> False | Inr fm \<Rightarrow> True"
    by code_simp
  then show ?thesis
    by (simp add: demo_fm2_def split: sum.splits)
qed

theorem C5_same_bytes_stored_once_witness:
  "run_save demo_platform first_save demo_fm = Inr (Some (AtPath ''files/a.png'' ''md5-PNG''), demo_fm1) \<and>
   run_saves demo_platform [other_save] demo_fm1 = Inr demo_fm2 \<and>
   buffer_of second_save = buffer_of first_save \<and>
   \<not> refused demo_platform demo_fm2 second_save \<and>
   run_save demo_platform second_save demo_fm2 = Inr (Some (AtPath ''files/a.png'' ''md5-PNG''), demo_fm2) \<and>
   written (fs_log demo_fm2) =
     [(''/output/2024-01-01_00-00-00/files/a.png'', ''PNG''),
      (''/output/2024-01-01_00-00-00/css/style.css'', ''body{}'')]"
proof -
  have same: "buffer_of second_save = buffer_of first_save"
    by (simp add: second_save_def first_save_def)
  have ok: "\<not> refused demo_platform demo_fm2 second_save"
    by (simp add: second_save_def)
  have disk: "written (fs_log demo_fm2) =
     [(''/output/2024-01-01_00-00-00/files/a.png'', ''PNG''),
      (''/output/2024-01-01_00-00-00/css/style.css'', ''body{}'')]"
    by code_simp
  from C5_same_bytes_stored_once[OF demo_first_run demo_between same ok]
  show ?thesis using demo_first_run demo_between same ok disk by blast
qed

text \<open>
  Counterexample to C5 as stated: the second of two calls with identical bytes names a
  path outside the snapshot. The guard runs before the content hash is looked up, so
  the call returns \<open>null\<close>, not the record of the first call.
\<close>

theorem C5_refused_call_returns_null:
  "run_save demo_platform first_save demo_fm = Inr (Some (AtPath ''files/a.png'' ''md5-PNG''), demo_fm1) \<and>
   buffer_of unsafe_save = buffer_of first_save \<and>
   returned (run_save demo_platform unsafe_save demo_fm1) = Some None"
proof -
  have "returned (run_save demo_platform unsafe_save demo_fm1) = Some None"
    by code_simp
  then show ?thesis
    using demo_first_run by (simp add: unsafe_save_def first_save_def)
qed

section \<open>Page paths\<close>

text \<open>
  C8. The relative path of a page: \<open>pages/<md5 of the URL>.html\<close> when the URL does not
  parse; otherwise, with \<open>p\<close> the URL's path less one trailing slash, \<open>index.html\<close> when
  \<open>p\<close> is the root, \<open>p\<close> without its leading slash when \<open>path.extname\<close> finds an
  extension in it, and that followed by \<open>/index.html\<close> when it finds none. \<open>savePage\<close>
  reports this path and writes the markup to it under the snapshot directory.
\<close>

theorem C8_page_file_path:
  "(URL_new P u = None \<longrightarrow> getPageFilePath P u = ''pages/'' @ md5_hex P u @ ''.html'') \<and>
   (\<forall>urlObj p. URL_new P u = Some urlObj \<and> p = strip_trailing_slash (pathname urlObj) \<longrightarrow>
      (p = [] \<or> p = ''/'' \<longrightarrow> getPageFilePath P u = ''index.html'') \<and>
      (p \<noteq> [] \<and> p \<noteq> ''/'' \<and> path_extname P (drop 1 p) = [] \<longrightarrow>
         getPageFilePath P u = drop 1 p @ ''/index.html'') \<and>
      (p \<noteq> [] \<and> p \<noteq> ''/'' \<and> path_extname P (drop 1 p) \<noteq> [] \<longrightarrow>
         getPageFilePath P u = drop 1 p)) \<and>
   (\<forall>dir saved fm'. snapshotDir fm = Some dir \<and> savePage P u h fm = Inr (saved, fm') \<longrightarrow>
      sp_filePath saved = getPageFilePath P u \<and>
      sp_fullPath saved = path_join P [dir, getPageFilePath P u] \<and>
      written (fs_log fm') = written (fs_log fm) @ [(path_join P [dir, getPageFilePath P u], h)])"
proof (intro conjI allI impI)
  show "getPageFilePath P u = ''pages/'' @ md5_hex P u @ ''.html''" if "URL_new P u = None"
    using that by (simp add: getPageFilePath_def)
next
  fix urlObj p
  assume a: "URL_new P u = Some urlObj \<and> p = strip_trailing_slash (pathname urlObj)"
  show "getPageFilePath P u = ''index.html''" if "p = [] \<or> p = ''/''"
    using a that by (auto simp: getPageFilePath_def Let_def)
  show "getPageFilePath P u = drop 1 p @ ''/index.html''"
    if "p \<noteq> [] \<and> p \<noteq> ''/'' \<and> path_extname P (drop 1 p) = []"
    using a that by (simp add: getPageFilePath_def Let_def)
  show "getPageFilePath P u = drop 1 p"
    if "p \<noteq> [] \<and> p \<noteq> ''/'' \<and> path_extname P (drop 1 p) \<noteq> []"
    using a that by (simp add: getPageFilePath_def Let_def)
next
  fix dir saved fm'
  assume a: "snapshotDir fm = Some dir \<and> savePage P u h fm = Inr (saved, fm')"
  then obtain fm1 where calls:
      "fs_calls P [EnsureDir (path_dirname P (path_join P [dir, getPageFilePath P u])),
                   WriteFile (path_join P [dir, getPageFilePath P u]) h] fm = Inr fm1"
    and saved: "saved = \<lparr>sp_url = u, sp_filePath = getPageFilePath P u,
                        sp_fullPath = path_join P [dir, getPageFilePath P u]\<rparr>"
    and fm': "fm' = fm1\<lparr>pageCount := pageCount fm1 + 1\<rparr>"
    by (auto simp: savePage_def Let_def simp del: fs_calls.simps split: sum.splits)
  show "sp_filePath saved = getPageFilePath P u"
    and "sp_fullPath saved = path_join P [dir, getPageFilePath P u]"
    by (simp_all add: saved)
  show "written (fs_log fm') = written (fs_log fm) @ [(path_join P [dir, getPageFilePath P u], h)]"
    using fs_calls_keeps[OF calls] by (simp add: fm' written_append)
qed

text \<open>Witness for C8: the root, two extension-less paths, a file name, a string that is no URL.\<close>

theorem C8_page_file_path_witness:
  "getPageFilePath demo_platform ''https://example.com/'' = ''index.html'' \<and>
   getPageFilePath demo_platform ''https://example.com/about/team'' = ''about/team/index.html'' \<and>
   getPageFilePath demo_platform ''https://example.com/about/'' = ''about/index.html'' \<and>
   getPageFilePath demo_platform ''https://example.com/docs/guide.html'' = ''docs/guide.html'' \<and>
   getPageFilePath demo_platform ''not a url'' = ''pages/md5-not a url.html'' \<and>
   returned (savePage demo_platform ''https://example.com/about/team'' ''<html></html>'' demo_fm) =
     Some \<lparr>sp_url = ''https://example.com/about/team'', sp_filePath = ''about/team/index.html'',
           sp_fullPath = ''/output/2024-01-01_00-00-00/about/team/index.html''\<rparr>"
proof -
  have none: "URL_new demo_platform ''not a url'' = None"
    by code_simp
  have root: "URL_new demo_platform ''https://example.com/'' =
      Some \<lparr>hostname = ''example.com'', pathname = ''/'', search = [], hash = []\<rparr>"
    by code_simp
  have team: "URL_new demo_platform ''https://example.com/about/team'' =
      Some \<lparr>hostname = ''example.com'', pathname = ''/about/team'', search = [], hash = []\<rparr>"
    by code_simp
  have guide: "URL_new demo_platform ''https://example.com/docs/guide.html'' =
      Some \<lparr>hostname = ''example.com'', pathname = ''/docs/guide.html'', search = [], hash = []\<rparr>"
    by code_simp
  have e1: "path_extname demo_platform ''about/team'' = []"
    by code_simp
  have e2: "path_extname demo_platform ''docs/guide.html'' \<noteq> []"
    by code_simp
  have s0: "strip_trailing_slash ''/'' = []"
    and s1: "strip_trailing_slash ''/about/team'' = ''/about/team''"
    and s2: "strip_trailing_slash ''/docs/guide.html'' = ''/docs/guide.html''"
    by code_simp+
  have "getPageFilePath demo_platform ''not a url'' = ''pages/'' @ md5_hex demo_platform ''not a url'' @ ''.html''"
    using C8_page_file_path[of demo_platform "''not a url''" demo_fm "[]"] by (simp add: none)
  then have a: "getPageFilePath demo_platform ''not a url'' = ''pages/md5-not a url.html''"
    by (simp add: demo_platform_def)
  have b: "getPageFilePath demo_platform ''https://example.com/'' = ''index.html''"
    using C8_page_file_path[of demo_platform "''https://example.com/''" demo_fm "[]"]
    by (simp add: root s0)
  have c: "getPageFilePath demo_platform ''https://example.com/about/team'' = ''about/team/index.html''"
    using C8_page_file_path[of demo_platform "''https://example.com/about/team''" demo_fm "[]"]
    by (simp add: team s1 e1)
  have d: "getPageFilePath demo_platform ''https://example.com/docs/guide.html'' = ''docs/guide.html''"
    using C8_page_file_path[of demo_platform "''https://example.com/docs/guide.html''" demo_fm "[]"]
    by (simp add: guide s2 e2)
  have e: "getPageFilePath demo_platform ''https://example.com/about/'' = ''about/index.html''"
    by code_simp
  have f: "returned (savePage demo_platform ''https://example.com/about/team'' ''<html></html>'' demo_fm) =
     Some \<lparr>sp_url = ''https://example.com/about/team'', sp_filePath = ''about/team/index.html'',
           sp_fullPath = ''/output/2024-01-01_00-00-00/about/team/index.html''\<rparr>"
    by code_simp
  from a b c d e f show ?thesis by blast
qed

section \<open>Path consistency\<close>








section \<open>Replacing flagged elements\<close>

lemma startsWith_append: "startsWith a p \<Longrightarrow> startsWith (a @ b) p"
  by (induction a p rule: startsWith.induct) simp_all

lemma js_includes_left: "js_includes a p \<Longrightarrow> js_includes (a @ b) p"
proof (induction a)
  case Nil
  then show ?case by (cases b) simp_all
next
  case (Cons c a)
  then show ?case by (auto dest: startsWith_append[where b = b])
qed

lemma js_includes_right: "js_includes b p \<Longrightarrow> js_includes (a @ b) p"
  by (induction a) simp_all

lemma toLowerCase_append: "toLowerCase (a @ b) = toLowerCase a @ toLowerCase b"
  by (simp add: toLowerCase_def)

lemma replace_each_append:
  "replace_each m r (xs @ ys) = replace_each m r xs @ replace_each m r ys"
  by (simp add: replace_each_def)

lemma replace_each_hit: "m (Element t as cs) \<Longrightarrow> replace_each m r [Element t as cs] = r"
  by (simp add: replace_each_def)

lemma replace_each_miss:
  "\<not> m (Element t as cs) \<Longrightarrow>
   replace_each m r [Element t as cs] = [Element t as (replace_each m r cs)]"
  by (simp add: replace_each_def)

lemma startsWith_iff: "startsWith s p \<longleftrightarrow> (\<exists>b. s = p @ b)"
  by (induction s p rule: startsWith.induct) auto

lemma endsWith_iff: "endsWith s p \<longleftrightarrow> (\<exists>a. s = a @ p)"
proof
  assume "endsWith s p"
  then obtain b where "rev s = rev p @ b"
    by (auto simp: endsWith_def startsWith_iff)
  then have "s = rev b @ p"
    by (metis rev_append rev_rev_ident)
  then show "\<exists>a. s = a @ p" ..
next
  assume "\<exists>a. s = a @ p"
  then show "endsWith s p"
    by (auto simp: endsWith_def startsWith_iff)
qed

lemma js_includes_mid: "js_includes (a @ p @ b) p"
proof -
  have "startsWith (p @ b) p"
    by (simp add: startsWith_iff)
  then have "js_includes (p @ b) p"
    by (cases "p @ b") (auto simp: startsWith_iff)
  then show ?thesis by (rule js_includes_right)
qed

lemma block_has_link:
  "js_includes (createJatosReplacement lp) (''<a href='' @ [CHR 0x22] @ lp @ [CHR 0x22])"
proof -
  have "endsWith replacement_head (''<a href='' @ [CHR 0x22])"
    by code_simp
  then obtain h where h: "replacement_head = h @ ''<a href='' @ [CHR 0x22]"
    by (auto simp: endsWith_iff)
  have "startsWith replacement_tail [CHR 0x22]"
    by code_simp
  then obtain t where t: "replacement_tail = [CHR 0x22] @ t"
    by (auto simp: startsWith_iff)
  have "createJatosReplacement lp = h @ (''<a href='' @ [CHR 0x22] @ lp @ [CHR 0x22]) @ t"
    by (simp add: createJatosReplacement_def h t)
  then show ?thesis
    by (simp only: js_includes_mid)
qed

text \<open>
  What the three passes replace when they reach an element: an \<open>iframe\<close> whose \<open>src\<close> or
  \<open>class\<close> contains \<open>jatos\<close> as written; a \<open>form\<close> whose \<open>action\<close> or \<open>class\<close> contains
  \<open>jatos\<close>, \<open>experiment\<close> or \<open>signup\<close> in any letter case; an anchor whose \<open>href\<close> contains
  \<open>jatos\<close> or \<open>experiment\<close> as written, or whose text contains one of them in any letter
  case. The replacement is the parsed block, whose markup holds a link to the
  configured profile. Each pass works through sibling lists and descends into the
  elements it keeps.
\<close>

lemma flagged_elements_replaced:
  assumes block: "block = cheerio_parse P (createJatosReplacement (linkedinProfile pp))"
  shows
    "(\<forall>as cs v. (map_of as ''src'' = Some v \<or> map_of as ''class'' = Some v) \<and> js_includes v ''jatos'' \<longrightarrow>
        replace_each jatos_iframe block [Element ''iframe'' as cs] = block) \<and>
     (\<forall>as cs token. token \<in> set [''jatos'', ''experiment'', ''signup''] \<and>
        (js_includes (toLowerCase (or_empty (map_of as ''action''))) token \<or>
         js_includes (toLowerCase (or_empty (map_of as ''class''))) token) \<longrightarrow>
        replace_each jatos_form block [Element ''form'' as cs] = block) \<and>
     (\<forall>as cs token. token \<in> set [''jatos'', ''experiment''] \<and>
        (js_includes (or_empty (map_of as ''href'')) token \<or>
         js_includes (toLowerCase (node_text (Element ''a'' as cs))) token) \<longrightarrow>
        replace_each jatos_link block [Element ''a'' as cs] = block) \<and>
     replaceJatosForms P pp doc =
       replace_each jatos_link block (replace_each jatos_form block (replace_each jatos_iframe block doc)) \<and>
     (\<forall>m xs ys. replace_each m block (xs @ ys) = replace_each m block xs @ replace_each m block ys) \<and>
     (\<forall>m t as cs. \<not> m (Element t as cs) \<longrightarrow>
        replace_each m block [Element t as cs] = [Element t as (replace_each m block cs)]) \<and>
     js_includes (createJatosReplacement (linkedinProfile pp))
       (''<a href='' @ [CHR 0x22] @ linkedinProfile pp @ [CHR 0x22])"
proof (intro conjI allI impI)
  fix as cs v
  assume "(map_of as ''src'' = Some v \<or> map_of as ''class'' = Some v) \<and> js_includes v ''jatos''"
  then have "jatos_iframe (Element ''iframe'' as cs)"
    by (auto simp: jatos_iframe_def is_tag_def attr_contains_def attr_def)
  then show "replace_each jatos_iframe block [Element ''iframe'' as cs] = block"
    by (rule replace_each_hit)
next
  fix as cs token
  assume a: "token \<in> set [''jatos'', ''experiment'', ''signup''] \<and>
        (js_includes (toLowerCase (or_empty (map_of as ''action''))) token \<or>
         js_includes (toLowerCase (or_empty (map_of as ''class''))) token)"
  then have "js_includes (toLowerCase (or_empty (map_of as ''action'') @ or_empty (map_of as ''class''))) token"
    by (auto simp: toLowerCase_append intro: js_includes_left js_includes_right)
  with a have "jatos_form (Element ''form'' as cs)"
    by (auto simp: jatos_form_def is_tag_def attr_def)
  then show "replace_each jatos_form block [Element ''form'' as cs] = block"
    by (rule replace_each_hit)
next
  fix as cs token
  assume a: "token \<in> set [''jatos'', ''experiment''] \<and>
        (js_includes (or_empty (map_of as ''href'')) token \<or>
         js_includes (toLowerCase (node_text (Element ''a'' as cs))) token)"
  then have "js_includes (or_empty (map_of as ''href'') @ toLowerCase (node_text (Element ''a'' as cs))) token"
    by (auto intro: js_includes_left js_includes_right)
  with a have "jatos_link (Element ''a'' as cs)"
    by (auto simp: jatos_link_def is_tag_def attr_def)
  then show "replace_each jatos_link block [Element ''a'' as cs] = block"
    by (rule replace_each_hit)
next
  show "replaceJatosForms P pp doc =
       replace_each jatos_link block (replace_each jatos_form block (replace_each jatos_iframe block doc))"
    by (simp add: replaceJatosForms_def Let_def block)
next
  show "replace_each m block (xs @ ys) = replace_each m block xs @ replace_each m block ys" for m xs ys
    by (rule replace_each_append)
next
  show "replace_each m block [Element t as cs] = [Element t as (replace_each m block cs)]"
    if "\<not> m (Element t as cs)" for m t as cs
    using that by (rule replace_each_miss)
next
  show "js_includes (createJatosReplacement (linkedinProfile pp))
       (''<a href='' @ [CHR 0x22] @ linkedinProfile pp @ [CHR 0x22])"
    by (rule block_has_link)
qed

text \<open>
  C9. Every flagged \<open>iframe\<close>, \<open>form\<close> and anchor is meant to be replaced, the marker
  being looked for without regard to letter case. The \<open>form\<close> pass does so: a form whose
  \<open>action\<close> is \<open>/JATOS/run\<close> is replaced by the block. The \<open>iframe\<close> selectors and the
  anchor test do not: the selectors compare \<open>src\<close> and \<open>class\<close> as written, and the
  anchor test lower-cases the text but not the \<open>href\<close>. An \<open>iframe\<close> with the \<open>src\<close>
  \<open>https://lab.example.org/JATOS/run\<close> and an anchor with the \<open>href\<close> \<open>/JATOS/start\<close> both
  contain the marker when letter case is ignored, and both are kept.
\<close>

theorem C9_upper_case_marker_kept:
  "js_includes (toLowerCase ''/JATOS/run'') ''jatos'' \<and>
   replaceJatosForms demo_platform demo_pp
     [Element ''form'' [(''action'', ''/JATOS/run'')] []] = demo_block \<and>
   js_includes (toLowerCase ''https://lab.example.org/JATOS/run'') ''jatos'' \<and>
   replaceJatosForms demo_platform demo_pp
     [Element ''iframe'' [(''src'', ''https://lab.example.org/JATOS/run'')] []] =
     [Element ''iframe'' [(''src'', ''https://lab.example.org/JATOS/run'')] []] \<and>
   js_includes (toLowerCase ''/JATOS/start'') ''jatos'' \<and>
   replaceJatosForms demo_platform demo_pp
     [Element ''a'' [(''href'', ''/JATOS/start'')] [Text ''Start'']] =
     [Element ''a'' [(''href'', ''/JATOS/start'')] [Text ''Start'']]"
  by code_simp

end
